theory Spec2Isabelle
  imports Complex_Main "HOL-Library.Multiset"
begin

section \<open>Python strings and the library functions the code relies on\<close>

text \<open>
  A Python \<open>str\<close> is a sequence of Unicode code points; it is modelled as a list of
  code points, so that \<open>len\<close>, slicing and \<open>in\<close> count what Python counts.
\<close>

type_synonym pystr = "nat list"

definition ascii :: "string \<Rightarrow> pystr" where
  "ascii s = map of_char s"

text \<open>
  Functions of the Python runtime that depend on the Unicode character database are
  not part of the repository. They are parameters of the model:
  \<^item> \<open>py_isdigit\<close>: the characters matched by \<open>\\d\<close> in a \<open>str\<close> pattern;
  \<^item> \<open>py_int\<close>: the builtin \<open>int(s)\<close>, \<open>None\<close> where it raises \<open>ValueError\<close>;
  \<^item> \<open>py_lower\<close>, \<open>py_strip\<close>: \<open>str.lower()\<close> and \<open>str.strip()\<close>.
\<close>

record pylib =
  py_isdigit :: "nat \<Rightarrow> bool"
  py_int :: "pystr \<Rightarrow> int option"
  py_lower :: "pystr \<Rightarrow> pystr"
  py_strip :: "pystr \<Rightarrow> pystr"

text \<open>The substring test \<open>sub in text\<close>.\<close>

primrec py_in :: "'a list \<Rightarrow> 'a list \<Rightarrow> bool" where
  "py_in sub [] = (sub = [])"
| "py_in sub (c # cs) = (take (length sub) (c # cs) = sub \<or> py_in sub cs)"

text \<open>\<open>s.replace(a, b)\<close> for single characters \<open>a\<close>, \<open>b\<close>.\<close>

definition replace_char :: "nat \<Rightarrow> nat \<Rightarrow> pystr \<Rightarrow> pystr" where
  "replace_char a b s = map (\<lambda>c. if c = a then b else c) s"

text \<open>\<open>s.split('-')[0]\<close>: the part of \<open>s\<close> before its first dash (all of \<open>s\<close> without one).\<close>

definition split_dash_first :: "pystr \<Rightarrow> pystr" where
  "split_dash_first s = takeWhile (\<lambda>c. c \<noteq> 45) s"

section \<open>The recency scorer (tools/search\_review\_tool.py)\<close>

text \<open>The code points of the CJK characters for year, month and day.\<close>

definition nian :: nat where "nian = 24180"
definition yue :: nat where "yue = 26376"
definition ri :: nat where "ri = 26085"

text \<open>
  \<open>re.findall\<close> with the pattern \<open>(\\d{4})Y\<close>, \<open>Y\<close> the year character: scanning
  from the left, every non-overlapping occurrence of four digits followed by the year
  character; the four digits are the group.
\<close>

fun findall_year :: "(nat \<Rightarrow> bool) \<Rightarrow> pystr \<Rightarrow> pystr list" where
  "findall_year d (a # b # c # e # f # rest) =
     (if d a \<and> d b \<and> d c \<and> d e \<and> f = nian
      then [a, b, c, e] # findall_year d rest
      else findall_year d (b # c # e # f # rest))"
| "findall_year d _ = []"

text \<open>
  \<open>re.search\<close> with the same pattern, then \<open>.group(1)\<close>: the group of the leftmost
  occurrence; \<open>None\<close> where \<open>re.search\<close> returns \<open>None\<close> (and \<open>.group\<close> raises).
\<close>

fun search_year :: "(nat \<Rightarrow> bool) \<Rightarrow> pystr \<Rightarrow> pystr option" where
  "search_year d (a # b # c # e # f # rest) =
     (if d a \<and> d b \<and> d c \<and> d e \<and> f = nian
      then Some [a, b, c, e]
      else search_year d (b # c # e # f # rest))"
| "search_year d _ = None"

text \<open>
  The relative-recency markers of the pattern
  \<open>zuijin|riqian|xiaoshi|jintian|zuori|zuotian|benzhou|benyue|ganggang\<close>
  (written in the source with their CJK characters).
\<close>

definition recency_markers :: "pystr list" where
  "recency_markers =
     [[26368, 36817], [26085, 21069], [23567, 26102], [20170, 22825], [26152, 26085],
      [26152, 22825], [26412, 21608], [26412, 26376], [21018, 21018]]"

definition has_recency_marker :: "pystr \<Rightarrow> bool" where
  "has_recency_marker text = list_ex (\<lambda>m. py_in m text) recency_markers"

text \<open>
  The first \<open>try\<close> block of \<open>_compute_recency_score\<close>: the year of the reference date,
  \<open>None\<close> when the date is empty or any step raises.
\<close>

definition now_year_of :: "pylib \<Rightarrow> pystr \<Rightarrow> int option" where
  "now_year_of L current_date =
     (if current_date = [] then None
      else if nian \<in> set current_date then
        (case search_year (py_isdigit L) current_date of
           None \<Rightarrow> None
         | Some y \<Rightarrow> py_int L y)
      else py_int L (split_dash_first current_date))"

definition entry_text :: "pystr \<Rightarrow> pystr \<Rightarrow> pystr" where
  "entry_text title snippet = title @ [32] @ snippet"

definition date_hit :: "pystr \<Rightarrow> pystr \<Rightarrow> bool" where
  "date_hit current_date text \<longleftrightarrow>
     current_date \<noteq> [] \<and>
     (py_in current_date text \<or> py_in (replace_char 45 nian current_date) text)"

definition compute_recency_score :: "pylib \<Rightarrow> pystr \<Rightarrow> pystr \<Rightarrow> pystr \<Rightarrow> rat" where
  "compute_recency_score L current_date title snippet =
     (let now_year = now_year_of L current_date;
          text = entry_text title snippet
      in if date_hit current_date text then 1
         else if has_recency_marker text then 8 / 10
         else (case findall_year (py_isdigit L) text of
                 [] \<Rightarrow> 3 / 10
               | y # _ \<Rightarrow>
                   (case now_year of
                      None \<Rightarrow> 2 / 10
                    | Some n \<Rightarrow>
                        if n = 0 then 2 / 10
                        else (case py_int L y of
                                None \<Rightarrow> 2 / 10
                              | Some v \<Rightarrow> if v = n then 6 / 10 else 2 / 10))))"

text \<open>
  One instance of the library parameters, used to run the model on ASCII inputs:
  \<open>\\d\<close> restricted to \<open>0..9\<close>, \<open>int\<close> on plain digit strings, \<open>lower\<close> on
  \<open>A..Z\<close>, \<open>strip\<close> on blanks and line breaks. On such inputs it agrees with Python.
\<close>

definition ascii_isdigit :: "nat \<Rightarrow> bool" where
  "ascii_isdigit c \<longleftrightarrow> 48 \<le> c \<and> c \<le> 57"

definition ascii_int :: "pystr \<Rightarrow> int option" where
  "ascii_int s =
     (if s \<noteq> [] \<and> list_all ascii_isdigit s
      then Some (int (foldl (\<lambda>a c. 10 * a + (c - 48)) 0 s))
      else None)"

definition ascii_lower :: "pystr \<Rightarrow> pystr" where
  "ascii_lower s = map (\<lambda>c. if 65 \<le> c \<and> c \<le> 90 then c + 32 else c) s"

definition ascii_isspace :: "nat \<Rightarrow> bool" where
  "ascii_isspace c \<longleftrightarrow> c = 32 \<or> (9 \<le> c \<and> c \<le> 13)"

definition ascii_strip :: "pystr \<Rightarrow> pystr" where
  "ascii_strip s = rev (dropWhile ascii_isspace (rev (dropWhile ascii_isspace s)))"

definition ascii_lib :: pylib where
  "ascii_lib = \<lparr> py_isdigit = ascii_isdigit, py_int = ascii_int,
                 py_lower = ascii_lower, py_strip = ascii_strip \<rparr>"

section \<open>Recommendation selection of the review tool (tools/search\_review\_tool.py)\<close>

text \<open>
  One element of \<open>results\<close> in \<open>review_search_results\<close>. The three scores are the
  values after \<open>round(_, 3)\<close>, taken as exact numbers: the selection only compares them.
\<close>

record scored_entry =
  r_index :: int
  r_title :: pystr
  r_snippet :: pystr
  r_url :: pystr
  r_source :: pystr
  relevance_score :: rat
  recency_score :: rat
  final_score :: rat
  r_reasons :: "pystr list"

text \<open>
  \<open>sorted(xs, key=k, reverse=True)\<close> is a stable sort into descending key order: equal
  keys keep the order of \<open>xs\<close>. A stable ascending sort on the negated key is the same.
\<close>

definition sorted_desc :: "('a \<Rightarrow> rat) \<Rightarrow> 'a list \<Rightarrow> 'a list" where
  "sorted_desc k xs = sort_key (\<lambda>x. - k x) xs"

definition threshold :: rat where
  "threshold = 4 / 10"

text \<open>Lines 208 to 215 of \<open>review_search_results\<close>: the list \<open>recommended\<close>.\<close>

definition recommend :: "scored_entry list \<Rightarrow> int list" where
  "recommend results =
     (let recommended = map r_index (filter (\<lambda>r. final_score r \<ge> threshold) results)
      in if recommended = [] \<and> results \<noteq> [] then
           (let sorted_by_score = sorted_desc final_score results
            in map (\<lambda>i. r_index (sorted_by_score ! i)) [0 ..< min 2 (length sorted_by_score)])
         else recommended)"

section \<open>Messages, tool calls and the collaborators (backend/main.py)\<close>

type_synonym tool_args = "(pystr \<times> pystr) list"

record tool_call =
  tc_name :: pystr
  tc_args :: tool_args
  tc_id :: pystr

text \<open>
  Message content is a string or a list of items; an item is a dict of type \<open>text\<close>
  (with its text, \<open>''\<close> when the key is absent), a bare string, or anything else.
\<close>

datatype block = TextBlock pystr | StrItem pystr | OtherBlock

datatype content = Text pystr | Blocks "block list"

datatype message =
    SystemMessage content
  | HumanMessage content
  | AIMessage content "tool_call list"
  | ToolMessage pystr pystr pystr

text \<open>\<open>ToolMessage content tool_call_id name\<close>, in this order.\<close>

text \<open>
  An entry of the review tool's JSON output after \<open>json.loads\<close>. \<open>index\<close> is read with
  \<open>e['index']\<close>; the other keys are read with \<open>.get\<close> and may be absent.
\<close>

record json_entry =
  je_index :: int
  je_title :: "pystr option"
  je_snippet :: "pystr option"
  je_url :: "pystr option"
  je_source :: "pystr option"
  je_final_score :: "rat option"
  je_reasons :: "pystr list option"

record model =
  m_name :: "pystr option"
  tools_bound :: bool

text \<open>One unit of \<open>model.astream\<close>: \<open>chunk.additional_kwargs\<close> and \<open>chunk.content\<close>.\<close>

record chunk =
  additional_kwargs :: "(pystr \<times> pystr) list"
  chunk_content :: pystr

record pdf_chunk =
  pc_content :: "pystr option"
  pc_source_info :: "pystr option"

text \<open>A reference built by \<open>extract_references_from_content\<close>.\<close>

record reference =
  ref_id :: int
  ref_text :: pystr
  ref_source :: pystr
  ref_page :: int
  ref_chunk_id :: int
  ref_source_info :: pystr

text \<open>
  The collaborators, over a state \<open>'w\<close> of the outside world that every call may read
  and change. A raised exception is \<open>Inl\<close> of its message \<open>str(e)\<close>.
  \<^item> \<open>get_chat_model\<close>: \<open>Some detail\<close> when constructing the client raises;
  \<^item> \<open>bind_tools_ok\<close>: whether \<open>model.bind_tools\<close> returns;
  \<^item> \<open>ainvoke\<close>: the non-streaming call, returning the content and tool calls of
    the response;
  \<^item> \<open>astream\<close>: the streaming call: the units delivered, and the exception that ends
    them when there is one;
  \<^item> \<open>tool_ainvoke\<close>: \<open>tool.ainvoke(args)\<close> of the registered tool of that name;
  \<^item> \<open>now_date\<close>: \<open>datetime.now().strftime('%Y-%m-%d')\<close>;
  \<^item> \<open>json_review\<close>: \<open>json.loads\<close> of a review result with its \<open>recommendations\<close> and
    \<open>entries\<close> (\<open>[]\<close> when absent); \<open>None\<close> when decoding or an access raises;
  \<^item> \<open>extract_references\<close>: \<open>extract_references_from_content\<close>;
  \<^item> \<open>append_message\<close>: the conversation store; \<open>Some\<close> when it raises.
\<close>

record 'w env =
  get_chat_model :: "pystr option \<Rightarrow> 'w \<Rightarrow> pystr option"
  bind_tools_ok :: "pystr option \<Rightarrow> 'w \<Rightarrow> bool"
  ainvoke :: "model \<Rightarrow> message list \<Rightarrow> 'w \<Rightarrow> (pystr + content \<times> tool_call list) \<times> 'w"
  astream :: "model \<Rightarrow> message list \<Rightarrow> 'w \<Rightarrow> (chunk list \<times> pystr option) \<times> 'w"
  tool_ainvoke :: "pystr \<Rightarrow> tool_args \<Rightarrow> 'w \<Rightarrow> (pystr + pystr) \<times> 'w"
  now_date :: "'w \<Rightarrow> pystr"
  json_review :: "pystr \<Rightarrow> (int list \<times> json_entry list) option"
  extract_references :: "pystr \<Rightarrow> pdf_chunk list \<Rightarrow> pystr + reference list"
  append_message :: "pystr \<Rightarrow> pystr \<Rightarrow> reference list \<Rightarrow> 'w \<Rightarrow> pystr option \<times> 'w"

text \<open>The events of the stream, before their JSON encoding and without timestamps.\<close>

datatype event =
    SessionInit pystr
  | ToolCalls "(pystr \<times> tool_args) list"
  | ToolResults "(pystr \<times> pystr) list"
  | ThoughtProcessStart
  | ThoughtProcessContent pystr
  | ThoughtProcessEnd
  | AnswerStart
  | ContentDelta pystr
  | MessageComplete pystr "reference list"
  | Error pystr

text \<open>The calls made to the model, in order: an observation of the run, not a value of the code.\<close>

datatype model_call = Ainvoke model "message list" | Astream model "message list"

section \<open>get\_chat\_model\_with\_tools\<close>

definition deepseek_chat :: pystr where
  "deepseek_chat = ascii ''deepseek-chat''"

definition deepseek_reasoner :: pystr where
  "deepseek_reasoner = ascii ''deepseek-reasoner''"

definition get_chat_model_with_tools ::
  "'w env \<Rightarrow> pystr option \<Rightarrow> bool \<Rightarrow> 'w \<Rightarrow> pystr + model" where
  "get_chat_model_with_tools E model_name enable_tools w =
     (case get_chat_model E model_name w of
        Some detail \<Rightarrow> Inl detail
      | None \<Rightarrow>
          if enable_tools \<and> (model_name = Some deepseek_chat \<or> model_name = None) then
            (if bind_tools_ok E model_name w
             then Inr \<lparr> m_name = model_name, tools_bound = True \<rparr>
             else Inr \<lparr> m_name = model_name, tools_bound = False \<rparr>)
          else Inr \<lparr> m_name = model_name, tools_bound = False \<rparr>)"

section \<open>execute\_tool\_calls\<close>

text \<open>\<open>str(i)\<close> for a natural number: its decimal digits.\<close>

function str_of_nat :: "nat \<Rightarrow> pystr" where
  "str_of_nat n = (if n < 10 then [48 + n] else str_of_nat (n div 10) @ [48 + n mod 10])"
  by pat_completeness auto
termination
  by (relation "measure id") auto

declare str_of_nat.simps [simp del]

fun py_join :: "pystr \<Rightarrow> pystr list \<Rightarrow> pystr" where
  "py_join sep [] = []"
| "py_join sep [x] = x"
| "py_join sep (x # y # ys) = x @ sep @ py_join sep (y # ys)"

text \<open>
  The registry \<open>all_tools\<close> of the source, by tool name:
  \<open>WEB_SEARCH_TOOLS + REVIEW_TOOLS\<close>. The functions below take the registry as an
  argument, as the source computes it in a local variable.
\<close>

definition review_search_results_name :: pystr where
  "review_search_results_name = ascii ''review_search_results''"

definition all_tools_registry :: "pystr list" where
  "all_tools_registry =
     [ascii ''web_search'', ascii ''search_recent_news'', ascii ''get_current_time'',
      review_search_results_name]"

text \<open>The first tool of the registry with the given name (the lookup is a loop with \<open>break\<close>).\<close>

definition lookup_tool :: "pystr list \<Rightarrow> pystr \<Rightarrow> pystr option" where
  "lookup_tool all_tools tool_name = find (\<lambda>t. t = tool_name) all_tools"

definition is_search_like :: "pylib \<Rightarrow> pystr \<Rightarrow> bool" where
  "is_search_like L tool_name =
     (let lower_name = py_lower L tool_name
      in list_ex (\<lambda>k. py_in k lower_name) [ascii ''search'', ascii ''web'', ascii ''news''])"

text \<open>The most recent user question: the scan of \<open>reversed(messages)\<close>.\<close>

fun block_parts :: "block list \<Rightarrow> pystr list" where
  "block_parts [] = []"
| "block_parts (TextBlock t # bs) = t # block_parts bs"
| "block_parts (StrItem t # bs) = t # block_parts bs"
| "block_parts (OtherBlock # bs) = block_parts bs"

fun question_scan :: "pylib \<Rightarrow> message list \<Rightarrow> pystr" where
  "question_scan L [] = []"
| "question_scan L (HumanMessage (Blocks c) # ms) = py_strip L (py_join [32] (block_parts c))"
| "question_scan L (HumanMessage (Text c) # ms) = c"
| "question_scan L (m # ms) = question_scan L ms"

definition user_question_of :: "pylib \<Rightarrow> message list \<Rightarrow> pystr" where
  "user_question_of L messages = question_scan L (rev messages)"

text \<open>
  Lines 294 to 315: the entries kept. \<open>entry_map\<close> is a dict built in entry order, so
  the last entry of an index wins.
\<close>

definition entry_map :: "json_entry list \<Rightarrow> int \<Rightarrow> json_entry option" where
  "entry_map entries = map_of (rev (map (\<lambda>e. (je_index e, e)) entries))"

definition score_key :: "json_entry \<Rightarrow> rat" where
  "score_key x = (case je_final_score x of None \<Rightarrow> 0 | Some v \<Rightarrow> v)"

fun pad_entries :: "json_entry list \<Rightarrow> json_entry list \<Rightarrow> int set \<Rightarrow> json_entry list" where
  "pad_entries [] final_entries existing_indices = final_entries"
| "pad_entries (e # es) final_entries existing_indices =
     (if length final_entries \<ge> 10 then final_entries
      else if je_index e \<notin> existing_indices
           then pad_entries es (final_entries @ [e]) (insert (je_index e) existing_indices)
           else pad_entries es final_entries existing_indices)"

definition recommended_entries :: "int list \<Rightarrow> json_entry list \<Rightarrow> json_entry list" where
  "recommended_entries recommendations entries =
     List.map_filter (entry_map entries) (take 10 recommendations)"

definition select_final_entries :: "int list \<Rightarrow> json_entry list \<Rightarrow> json_entry list" where
  "select_final_entries recommendations entries =
     (let final_entries = recommended_entries recommendations entries
      in if length final_entries < 10
         then pad_entries (sorted_desc score_key entries) final_entries
                (set (map je_index final_entries))
         else final_entries)"

text \<open>Lines 317 to 337: the text rebuilt from the entries kept.\<close>

definition review_header :: pystr where
  "review_header =
     [128269, 32, 32463, 23457, 26597, 31579, 36873, 21518, 30340, 25628, 32034, 32467,
      26524, 65306, 10, 10]"

definition get_or :: "'a \<Rightarrow> 'a option \<Rightarrow> 'a" where
  "get_or dflt v = (case v of None \<Rightarrow> dflt | Some x \<Rightarrow> x)"

definition render_entry :: "nat \<Rightarrow> json_entry \<Rightarrow> pystr" where
  "render_entry i entry =
     (let title = get_or [26080, 26631, 39064] (je_title entry);
          snippet = get_or [26080, 25551, 36848] (je_snippet entry);
          url = get_or [] (je_url entry);
          source = get_or [26410, 30693, 26469, 28304] (je_source entry);
          reasons = get_or [] (je_reasons entry)
      in ascii ''['' @ str_of_nat i @ ascii ''] '' @ title @ [10]
         @ [128221, 32] @ snippet @ [10]
         @ (if url \<noteq> [] then [128279, 32] @ url @ [10] else [])
         @ [128205, 32, 26469, 28304, 58, 32] @ source @ [10]
         @ (if reasons \<noteq> []
            then [128161, 32, 25512, 33616, 29702, 30001, 58, 32] @ py_join (ascii '', '') reasons @ [10]
            else [])
         @ [10])"

definition render_entries :: "json_entry list \<Rightarrow> pystr" where
  "render_entries final_entries =
     review_header @ concat (map (\<lambda>(i, entry). render_entry i entry) (enumerate 1 final_entries))"

text \<open>
  Lines 295 to 338: \<open>Some\<close> of the new value of \<open>result\<close> when the filtering assigns it,
  \<open>None\<close> when \<open>result\<close> keeps the raw tool output.
\<close>

definition filter_by_review :: "int list \<Rightarrow> json_entry list \<Rightarrow> pystr option" where
  "filter_by_review recommendations entries =
     (if recommendations \<noteq> [] \<and> entries \<noteq> [] then
        (let final_entries = select_final_entries recommendations entries
         in if final_entries \<noteq> [] then Some (render_entries final_entries) else None)
      else None)"

text \<open>
  Lines 248 to 343: the review of a search-like tool's result. Every exception in
  this block is caught inside it and leaves \<open>result\<close> as it was.
\<close>

definition review_step ::
  "'w env \<Rightarrow> pylib \<Rightarrow> pystr list \<Rightarrow> pystr \<Rightarrow> pystr \<Rightarrow> message list \<Rightarrow> 'w \<Rightarrow> pystr \<times> 'w" where
  "review_step E L all_tools tool_name result messages w =
     (if is_search_like L tool_name then
        (let user_question = user_question_of L messages
         in case lookup_tool all_tools review_search_results_name of
              None \<Rightarrow> (result, w)
            | Some review_tool \<Rightarrow>
                (let review_args =
                       [(ascii ''formatted_results'', result),
                        (ascii ''user_question'', user_question),
                        (ascii ''current_date'', now_date E w)]
                 in case tool_ainvoke E review_tool review_args w of
                      (Inl err, w1) \<Rightarrow> (result, w1)
                    | (Inr review_result, w1) \<Rightarrow>
                        (case json_review E review_result of
                           None \<Rightarrow> (result, w1)
                         | Some (recommendations, entries) \<Rightarrow>
                             (case filter_by_review recommendations entries of
                                None \<Rightarrow> (result, w1)
                              | Some new_result_text \<Rightarrow> (new_result_text, w1)))))
      else (result, w))"

definition tool_failed_prefix :: pystr where
  "tool_failed_prefix = [24037, 20855, 25191, 34892, 22833, 36133, 58, 32]"

text \<open>The body of the loop for a tool that was found: lines 226 to 368.\<close>

definition run_tool ::
  "'w env \<Rightarrow> pylib \<Rightarrow> pystr list \<Rightarrow> pystr \<Rightarrow> tool_call \<Rightarrow> message list \<Rightarrow> 'w \<Rightarrow> message \<times> 'w" where
  "run_tool E L all_tools tool_func tc messages w =
     (case tool_ainvoke E tool_func (tc_args tc) w of
        (Inl err, w1) \<Rightarrow> (ToolMessage (tool_failed_prefix @ err) (tc_id tc) (tc_name tc), w1)
      | (Inr result, w1) \<Rightarrow>
          (let (combined_content, w2) = review_step E L all_tools (tc_name tc) result messages w1
           in (ToolMessage combined_content (tc_id tc) (tc_name tc), w2)))"

fun execute_tool_calls ::
  "'w env \<Rightarrow> pylib \<Rightarrow> pystr list \<Rightarrow> tool_call list \<Rightarrow> message list \<Rightarrow> 'w \<Rightarrow> message list \<times> 'w" where
  "execute_tool_calls E L all_tools [] messages w = ([], w)"
| "execute_tool_calls E L all_tools (tc # tcs) messages w =
     (case lookup_tool all_tools (tc_name tc) of
        None \<Rightarrow> execute_tool_calls E L all_tools tcs messages w
      | Some tool_func \<Rightarrow>
          (let (tool_message, w1) = run_tool E L all_tools tool_func tc messages w;
               (tool_messages, w2) = execute_tool_calls E L all_tools tcs messages w1
           in (tool_message # tool_messages, w2)))"

section \<open>generate\_streaming\_response\_with\_tools\<close>

text \<open>
  Lines 570 to 581: the PDF chunks are appended to the system prompt. An absent
  \<open>pdf_chunks\<close> (\<open>None\<close>) is the empty list: the code tests its truth value only.
\<close>

definition pdf_content_of :: "pdf_chunk list \<Rightarrow> pystr" where
  "pdf_content_of pdf_chunks =
     [10, 10, 61, 61, 61, 32, 21442, 32771, 25991, 26723, 20869, 23481, 32, 61, 61, 61, 10]
     @ concat (map (\<lambda>(i, chunk).
         [10] @ ascii ''['' @ str_of_nat i @ ascii ''] '' @ take 500 (get_or [] (pc_content chunk))
         @ [10, 26469, 28304, 58, 32]
         @ get_or ([25991, 26723, 22359, 32] @ str_of_nat i) (pc_source_info chunk) @ [10])
       (enumerate 1 pdf_chunks))"

fun content_add :: "content \<Rightarrow> pystr \<Rightarrow> content" where
  "content_add (Text c) t = Text (c @ t)"
| "content_add (Blocks bs) t = Blocks (bs @ map (\<lambda>ch. StrItem [ch]) t)"

fun add_to_system :: "message list \<Rightarrow> pystr \<Rightarrow> message list" where
  "add_to_system (SystemMessage c # ms) t = SystemMessage (content_add c t) # ms"
| "add_to_system ms t = ms"

definition add_pdf_context :: "pdf_chunk list \<Rightarrow> message list \<Rightarrow> message list" where
  "add_pdf_context pdf_chunks messages =
     (if pdf_chunks \<noteq> [] then add_to_system messages (pdf_content_of pdf_chunks) else messages)"

text \<open>The truth value of \<open>session_id\<close>, and the session id then.\<close>

definition session_of :: "pystr option \<Rightarrow> pystr option" where
  "session_of session_id =
     (case session_id of None \<Rightarrow> None | Some sid \<Rightarrow> if sid = [] then None else Some sid)"

text \<open>The content of a tool message in the \<open>tool_results\<close> event.\<close>

definition truncate_200 :: "pystr \<Rightarrow> pystr" where
  "truncate_200 c = (if length c > 200 then take 200 c @ ascii ''...'' else c)"

fun tool_result_entry :: "message \<Rightarrow> pystr \<times> pystr" where
  "tool_result_entry (ToolMessage c tid nm) = (nm, truncate_200 c)"
| "tool_result_entry _ = ([], [])"

text \<open>
  Lines 592 to 647: the tool-calling loop. It returns the events yielded, the calls
  made to the model, and either the exception that left the loop (\<open>Inl\<close>) or the
  message list at its exit (\<open>Inr\<close>).
\<close>

function tool_loop ::
  "'w env \<Rightarrow> pylib \<Rightarrow> pystr list \<Rightarrow> model \<Rightarrow> int \<Rightarrow> int \<Rightarrow> message list \<Rightarrow> 'w
   \<Rightarrow> event list \<times> model_call list \<times> (pystr + message list) \<times> 'w" where
  "tool_loop E L all_tools mdl max_iterations iteration messages w =
     (if iteration < max_iterations then
        (case ainvoke E mdl messages w of
           (Inl err, w1) \<Rightarrow> ([], [Ainvoke mdl messages], Inl err, w1)
         | (Inr (c, tool_calls), w1) \<Rightarrow>
             if tool_calls \<noteq> [] then
               (let messages1 = messages @ [AIMessage c tool_calls];
                    (tool_messages, w2) = execute_tool_calls E L all_tools tool_calls messages1 w1;
                    messages2 = messages1 @ tool_messages;
                    (evs, calls, r, w3) =
                      tool_loop E L all_tools mdl max_iterations (iteration + 1) messages2 w2
                in (ToolCalls (map (\<lambda>tc. (tc_name tc, tc_args tc)) tool_calls)
                      # ToolResults (map tool_result_entry tool_messages) # evs,
                    Ainvoke mdl messages # calls, r, w3))
             else ([], [Ainvoke mdl messages], Inr messages, w1))
      else ([], [], Inr messages, w))"
  by pat_completeness auto
termination
  by (relation "measure (\<lambda>(E, L, all_tools, mdl, max_iterations, iteration, messages, w).
        nat (max_iterations - iteration))") auto

declare tool_loop.simps [simp del]

text \<open>Lines 650 to 709: the state of the final streaming and one step of its loop.\<close>

record split_state =
  thought_process_started :: bool
  thought_process_ended :: bool
  answer_started :: bool
  full_response :: pystr

definition split_init :: split_state where
  "split_init = \<lparr> thought_process_started = False, thought_process_ended = False,
                  answer_started = False, full_response = [] \<rparr>"

text \<open>
  \<open>chunk.additional_kwargs.get("reasoning_content")\<close>, with \<open>None\<close> and \<open>''\<close> both
  as the empty string: the code tests its truth value only.
\<close>

definition reasoning_content_of :: "chunk \<Rightarrow> pystr" where
  "reasoning_content_of c = get_or [] (map_of (additional_kwargs c) (ascii ''reasoning_content''))"

definition process_chunk :: "bool \<Rightarrow> split_state \<Rightarrow> chunk \<Rightarrow> event list \<times> split_state" where
  "process_chunk is_reasoner_model st c =
     (if is_reasoner_model \<and> additional_kwargs c \<noteq> [] \<and> reasoning_content_of c \<noteq> [] then
        ((if \<not> thought_process_started st then [ThoughtProcessStart] else [])
           @ [ThoughtProcessContent (reasoning_content_of c)],
         st\<lparr>thought_process_started := True\<rparr>)
      else if chunk_content c \<noteq> [] then
        (let end_now = is_reasoner_model \<and> thought_process_started st
                         \<and> \<not> thought_process_ended st
         in ((if end_now then [ThoughtProcessEnd] else [])
               @ (if \<not> answer_started st then [AnswerStart] else [])
               @ [ContentDelta (chunk_content c)],
             st\<lparr>thought_process_ended := (thought_process_ended st \<or> end_now),
                answer_started := True,
                full_response := full_response st @ chunk_content c\<rparr>))
      else ([], st))"

fun stream_chunks :: "bool \<Rightarrow> split_state \<Rightarrow> chunk list \<Rightarrow> event list \<times> split_state" where
  "stream_chunks is_reasoner_model st [] = ([], st)"
| "stream_chunks is_reasoner_model st (c # cs) =
     (let (evs, st1) = process_chunk is_reasoner_model st c;
          (evs', st2) = stream_chunks is_reasoner_model st1 cs
      in (evs @ evs', st2))"

text \<open>Lines 711 to 718: the reasoning channel is closed when the stream ends inside it.\<close>

definition closing_events :: "bool \<Rightarrow> split_state \<Rightarrow> event list" where
  "closing_events is_reasoner_model st =
     (if is_reasoner_model \<and> thought_process_started st \<and> \<not> thought_process_ended st
      then [ThoughtProcessEnd] else [])"

text \<open>Line 721: the references, extracted only when there are PDF chunks.\<close>

definition references_of :: "'w env \<Rightarrow> pystr \<Rightarrow> pdf_chunk list \<Rightarrow> pystr + reference list" where
  "references_of E full pdf_chunks =
     (if pdf_chunks \<noteq> [] then extract_references E full pdf_chunks else Inr [])"

text \<open>
  Lines 649 to 744: the final streaming call, the closing of the reasoning channel,
  the references, the persistence of the answer and the completion event. The
  exception of \<open>append_message\<close> is caught by the handler around the call (line 741).
\<close>

definition final_streaming ::
  "'w env \<Rightarrow> model \<Rightarrow> pystr option \<Rightarrow> message list \<Rightarrow> pdf_chunk list \<Rightarrow> pystr option \<Rightarrow> 'w
   \<Rightarrow> event list \<times> 'w" where
  "final_streaming E mdl model_name messages pdf_chunks session_id w =
     (let is_reasoner_model = (model_name = Some deepseek_reasoner);
          ((chunks, exn), w1) = astream E mdl messages w;
          (evs, st) = stream_chunks is_reasoner_model split_init chunks
      in case exn of
           Some err \<Rightarrow> (evs @ [Error err], w1)
         | None \<Rightarrow>
             (let end_evs = closing_events is_reasoner_model st
              in case references_of E (full_response st) pdf_chunks of
                   Inl err \<Rightarrow> (evs @ end_evs @ [Error err], w1)
                 | Inr references \<Rightarrow>
                     (let w2 = (case session_of session_id of
                                  None \<Rightarrow> w1
                                | Some sid \<Rightarrow>
                                    snd (append_message E sid (full_response st) references w1))
                      in (evs @ end_evs @ [MessageComplete (full_response st) references], w2))))"

text \<open>Lines 587 to 589: the session id is announced first, when there is one.\<close>

definition session_events :: "pystr option \<Rightarrow> event list" where
  "session_events session_id =
     (case session_of session_id of None \<Rightarrow> [] | Some sid \<Rightarrow> [SessionInit sid])"

text \<open>
  The whole generator: the events it yields when drained, the calls it made to the
  model, and the world it leaves. The outer \<open>except Exception\<close> (line 746) turns an
  exception of any step into the \<open>error\<close> event that ends the stream.
\<close>

definition generate_streaming_response_with_tools ::
  "'w env \<Rightarrow> pylib \<Rightarrow> pystr list \<Rightarrow> message list \<Rightarrow> pystr option \<Rightarrow> pdf_chunk list \<Rightarrow> bool
   \<Rightarrow> int \<Rightarrow> pystr option \<Rightarrow> 'w \<Rightarrow> event list \<times> model_call list \<times> 'w" where
  "generate_streaming_response_with_tools E L all_tools messages model_name pdf_chunks
     enable_tools max_iterations session_id w =
     (let messages0 = add_pdf_context pdf_chunks messages
      in case get_chat_model_with_tools E model_name enable_tools w of
           Inl err \<Rightarrow> ([Error err], [], w)
         | Inr mdl \<Rightarrow>
             (let init_evs = session_events session_id
              in case tool_loop E L all_tools mdl max_iterations 0 messages0 w of
                   (evs, calls, Inl err, w1) \<Rightarrow> (init_evs @ evs @ [Error err], calls, w1)
                 | (evs, calls, Inr messages1, w1) \<Rightarrow>
                     (let (final_evs, w2) =
                            final_streaming E mdl model_name messages1 pdf_chunks session_id w1
                      in (init_evs @ evs @ final_evs, calls @ [Astream mdl messages1], w2))))"

section \<open>Notions used to state the properties\<close>

text \<open>
  A year mention starts at position \<open>p\<close> of \<open>t\<close>: four digits there, followed by the
  year character.
\<close>

definition year_at :: "(nat \<Rightarrow> bool) \<Rightarrow> pystr \<Rightarrow> nat \<Rightarrow> bool" where
  "year_at d t p \<longleftrightarrow>
     p + 5 \<le> length t \<and> d (t ! p) \<and> d (t ! (p + 1)) \<and> d (t ! (p + 2)) \<and> d (t ! (p + 3))
     \<and> t ! (p + 4) = nian"

text \<open>
  The year \<open>y\<close> found in an entry is the year of the reference date: that year was
  determined, is not zero, and \<open>int(y)\<close> equals it.
\<close>

definition year_agrees :: "pylib \<Rightarrow> pystr \<Rightarrow> pystr \<Rightarrow> bool" where
  "year_agrees L current_date y =
     (case now_year_of L current_date of
        None \<Rightarrow> False
      | Some n \<Rightarrow> n \<noteq> 0 \<and> py_int L y = Some n)"

text \<open>Three scored entries, none of which reaches the threshold.\<close>

definition results0 :: "scored_entry list" where
  "results0 =
     [\<lparr> r_index = 1, r_title = ascii ''a'', r_snippet = [], r_url = [], r_source = [],
        relevance_score = 0, recency_score = 3 / 10, final_score = 9 / 100, r_reasons = [] \<rparr>,
      \<lparr> r_index = 2, r_title = ascii ''b'', r_snippet = [], r_url = [], r_source = [],
        relevance_score = 3 / 10, recency_score = 3 / 10, final_score = 3 / 10, r_reasons = [] \<rparr>,
      \<lparr> r_index = 3, r_title = ascii ''c'', r_snippet = [], r_url = [], r_source = [],
        relevance_score = 2 / 10, recency_score = 2 / 10, final_score = 2 / 10, r_reasons = [] \<rparr>]"

text \<open>
  The tool-call id and the tool name a tool message answers, and the calls whose name
  the registry knows.
\<close>

fun tool_message_key :: "message \<Rightarrow> pystr \<times> pystr" where
  "tool_message_key (ToolMessage c tid nm) = (tid, nm)"
| "tool_message_key _ = ([], [])"

definition known_call :: "pystr list \<Rightarrow> tool_call \<Rightarrow> bool" where
  "known_call all_tools tc \<longleftrightarrow> lookup_tool all_tools (tc_name tc) \<noteq> None"

text \<open>
  A small world for running the model: the state counts the calls made. Every model
  invocation answers with the tool calls \<open>tcs\<close>, the stream delivers \<open>chunks\<close> and
  ends, every tool returns a text, and the conversation store always raises.
\<close>

definition test_env :: "tool_call list \<Rightarrow> chunk list \<Rightarrow> nat env" where
  "test_env tcs chunks =
     \<lparr> get_chat_model = (\<lambda>model_name w. None),
       bind_tools_ok = (\<lambda>model_name w. True),
       ainvoke = (\<lambda>mdl messages w. ((Inr (Text [], tcs), Suc w))),
       astream = (\<lambda>mdl messages w. ((chunks, None), Suc w)),
       tool_ainvoke = (\<lambda>nm args w. (Inr (ascii ''result '' @ str_of_nat w), Suc w)),
       now_date = (\<lambda>w. ascii ''2025-11-22''),
       json_review = (\<lambda>r. None),
       extract_references = (\<lambda>c chunks. Inr []),
       append_message = (\<lambda>sid c refs w. (Some (ascii ''disk full''), Suc w)) \<rparr>"

definition call_time :: tool_call where
  "call_time = \<lparr> tc_name = ascii ''get_current_time'', tc_args = [], tc_id = ascii ''c1'' \<rparr>"

definition call_unknown :: tool_call where
  "call_unknown = \<lparr> tc_name = ascii ''unknown_tool'', tc_args = [], tc_id = ascii ''c2'' \<rparr>"

text \<open>
  What the padding loop guarantees for the entries \<open>pad\<close> it adds to \<open>fe\<close>, given the
  candidates \<open>es\<close> in descending score order and the indices \<open>ex\<close> already present:
  they are candidates with pairwise different, new indices, in descending score
  order, each scoring at least as much as every candidate of its index; they do not
  take the list beyond 10 entries, and a candidate whose index is still missing was
  left out only because the list is full, and scores no more than any of them.
\<close>

definition pad_ok ::
  "json_entry list \<Rightarrow> json_entry list \<Rightarrow> int set \<Rightarrow> json_entry list \<Rightarrow> bool" where
  "pad_ok es fe ex pad \<longleftrightarrow>
     set pad \<subseteq> set es
     \<and> distinct (map je_index pad)
     \<and> (\<forall>p\<in>set pad. je_index p \<notin> ex)
     \<and> sorted (map (\<lambda>e. - score_key e) pad)
     \<and> (\<forall>p\<in>set pad. \<forall>e\<in>set es. je_index e = je_index p \<longrightarrow> score_key e \<le> score_key p)
     \<and> (length fe \<le> 10 \<longrightarrow> length (fe @ pad) \<le> 10)
     \<and> (\<forall>e\<in>set es. je_index e \<notin> ex \<union> je_index ` set pad \<longrightarrow>
            10 \<le> length (fe @ pad) \<and> (\<forall>p\<in>set pad. score_key e \<le> score_key p))"

text \<open>
  Three entries of a review, in ascending score order, and the text rebuilt from them
  when entry 3 is recommended: entry 3 first, then the padding entries 2 and 1.
\<close>

definition entries3 :: "json_entry list" where
  "entries3 =
     [\<lparr> je_index = 1, je_title = Some (ascii ''a''), je_snippet = Some (ascii ''sa''),
        je_url = None, je_source = Some (ascii ''x''), je_final_score = Some (1 / 10),
        je_reasons = None \<rparr>,
      \<lparr> je_index = 2, je_title = Some (ascii ''b''), je_snippet = Some (ascii ''sb''),
        je_url = Some (ascii ''u''), je_source = Some (ascii ''y''), je_final_score = Some (3 / 10),
        je_reasons = Some [ascii ''r1'', ascii ''r2''] \<rparr>,
      \<lparr> je_index = 3, je_title = Some (ascii ''c''), je_snippet = Some (ascii ''sc''),
        je_url = None, je_source = Some (ascii ''z''), je_final_score = Some (5 / 10),
        je_reasons = Some [ascii ''r3''] \<rparr>]"

definition rewritten3 :: pystr where
  "rewritten3 =
     review_header
       @ ascii ''[1] c'' @ [10] @ [128221, 32] @ ascii ''sc'' @ [10]
       @ [128205, 32, 26469, 28304, 58, 32] @ ascii ''z'' @ [10]
       @ [128161, 32, 25512, 33616, 29702, 30001, 58, 32] @ ascii ''r3'' @ [10] @ [10]
       @ ascii ''[2] b'' @ [10] @ [128221, 32] @ ascii ''sb'' @ [10]
       @ [128279, 32] @ ascii ''u'' @ [10]
       @ [128205, 32, 26469, 28304, 58, 32] @ ascii ''y'' @ [10]
       @ [128161, 32, 25512, 33616, 29702, 30001, 58, 32] @ ascii ''r1, r2'' @ [10] @ [10]
       @ ascii ''[3] a'' @ [10] @ [128221, 32] @ ascii ''sa'' @ [10]
       @ [128205, 32, 26469, 28304, 58, 32] @ ascii ''x'' @ [10] @ [10]"

text \<open>
  A world in which the review works: the search tool returns the text \<open>raw\<close>, the
  review tool returns the text \<open>review\<close>, and that text decodes to the recommendation
  of entry 3 among the three entries above. A call of the search tool.
\<close>

definition review_env :: "nat env" where
  "review_env =
     \<lparr> get_chat_model = (\<lambda>model_name w. None),
       bind_tools_ok = (\<lambda>model_name w. True),
       ainvoke = (\<lambda>mdl messages w. ((Inr (Text [], []), Suc w))),
       astream = (\<lambda>mdl messages w. (([], None), Suc w)),
       tool_ainvoke = (\<lambda>nm args w.
         (Inr (if nm = review_search_results_name then ascii ''review'' else ascii ''raw''), Suc w)),
       now_date = (\<lambda>w. ascii ''2025-11-22''),
       json_review = (\<lambda>r. if r = ascii ''review'' then Some ([3], entries3) else None),
       extract_references = (\<lambda>c chunks. Inr []),
       append_message = (\<lambda>sid c refs w. (None, Suc w)) \<rparr>"

definition call_search :: tool_call where
  "call_search = \<lparr> tc_name = ascii ''web_search'', tc_args = [(ascii ''query'', ascii ''q'')],
                   tc_id = ascii ''c3'' \<rparr>"

text \<open>
  Kinds of events and of model calls, and the parts of a run: the terminating events
  are \<open>message_complete\<close> and \<open>error\<close>; a round of tool dispatch yields one
  \<open>tool_calls\<close> event.
\<close>

fun is_terminal :: "event \<Rightarrow> bool" where
  "is_terminal (MessageComplete full refs) = True"
| "is_terminal (Error err) = True"
| "is_terminal _ = False"

fun is_tool_calls :: "event \<Rightarrow> bool" where
  "is_tool_calls (ToolCalls tools) = True"
| "is_tool_calls _ = False"

fun is_tool_event :: "event \<Rightarrow> bool" where
  "is_tool_event (ToolCalls tools) = True"
| "is_tool_event (ToolResults results) = True"
| "is_tool_event _ = False"

fun is_ainvoke :: "model_call \<Rightarrow> bool" where
  "is_ainvoke (Ainvoke mdl messages) = True"
| "is_ainvoke (Astream mdl messages) = False"

fun call_model :: "model_call \<Rightarrow> model" where
  "call_model (Ainvoke mdl messages) = mdl"
| "call_model (Astream mdl messages) = mdl"

definition events_of :: "event list \<times> model_call list \<times> 'w \<Rightarrow> event list" where
  "events_of r = fst r"

definition calls_of :: "event list \<times> model_call list \<times> 'w \<Rightarrow> model_call list" where
  "calls_of r = fst (snd r)"

fun is_content_delta :: "event \<Rightarrow> bool" where
  "is_content_delta (ContentDelta c) = True"
| "is_content_delta _ = False"

fun is_thought_end :: "event \<Rightarrow> bool" where
  "is_thought_end ThoughtProcessEnd = True"
| "is_thought_end _ = False"

text \<open>
  A unit of the stream goes to the reasoning channel when the model is the reasoner
  and the unit carries a non-empty reasoning payload; it goes to the answer channel
  when it does not go to the reasoning channel and its content is non-empty.
\<close>

definition reasoning_unit :: "bool \<Rightarrow> chunk \<Rightarrow> bool" where
  "reasoning_unit is_reasoner_model c \<longleftrightarrow>
     is_reasoner_model \<and> additional_kwargs c \<noteq> [] \<and> reasoning_content_of c \<noteq> []"

definition answer_unit :: "bool \<Rightarrow> chunk \<Rightarrow> bool" where
  "answer_unit is_reasoner_model c \<longleftrightarrow>
     chunk_content c \<noteq> [] \<and> \<not> reasoning_unit is_reasoner_model c"

text \<open>
  Units, messages and models of the example runs: a plain answer unit, a unit with
  both payloads, a unit with a reasoning payload only.
\<close>

definition chunk_hi :: chunk where
  "chunk_hi = \<lparr> additional_kwargs = [], chunk_content = ascii ''hi'' \<rparr>"

definition chunk_both :: chunk where
  "chunk_both = \<lparr> additional_kwargs = [(ascii ''reasoning_content'', ascii ''think'')],
                  chunk_content = ascii ''ans'' \<rparr>"

definition chunk_think :: chunk where
  "chunk_think = \<lparr> additional_kwargs = [(ascii ''reasoning_content'', ascii ''think'')],
                   chunk_content = [] \<rparr>"

definition msgs0 :: "message list" where
  "msgs0 = [HumanMessage (Text (ascii ''hello''))]"

definition chat_with_tools :: model where
  "chat_with_tools = \<lparr> m_name = Some deepseek_chat, tools_bound = True \<rparr>"

definition time_result :: "nat \<Rightarrow> message" where
  "time_result n = ToolMessage (ascii ''result '' @ str_of_nat n) (ascii ''c1'') (ascii ''get_current_time'')"

definition msgs_ceiling :: "message list" where
  "msgs_ceiling = msgs0 @ [AIMessage (Text []) [call_time], time_result 1,
                           AIMessage (Text []) [call_time], time_result 3]"

definition reasoner_model :: model where
  "reasoner_model = \<lparr> m_name = Some deepseek_reasoner, tools_bound = False \<rparr>"

section \<open>Properties of the recency scorer\<close>

lemma py_in_iff: "py_in sub t \<longleftrightarrow> (\<exists>pre post. t = pre @ sub @ post)"
proof (induction t)
  case Nil
  then show ?case by auto
next
  case (Cons c cs)
  show ?case
  proof
    assume "py_in sub (c # cs)"
    then consider "take (length sub) (c # cs) = sub" | "py_in sub cs" by auto
    then show "\<exists>pre post. c # cs = pre @ sub @ post"
    proof cases
      case 1
      then have "c # cs = [] @ sub @ drop (length sub) (c # cs)"
        by (metis append_Nil append_take_drop_id)
      then show ?thesis by blast
    next
      case 2
      then obtain pre post where "cs = pre @ sub @ post" using Cons.IH by blast
      then have "c # cs = (c # pre) @ sub @ post" by simp
      then show ?thesis by blast
    qed
  next
    assume "\<exists>pre post. c # cs = pre @ sub @ post"
    then obtain pre post where eq: "c # cs = pre @ sub @ post" by blast
    show "py_in sub (c # cs)"
    proof (cases pre)
      case Nil
      then have "take (length sub) (c # cs) = sub" using eq by simp
      then show ?thesis by simp
    next
      case (Cons p ps)
      then have "cs = ps @ sub @ post" using eq by simp
      then have "py_in sub cs" using Cons.IH by blast
      then show ?thesis by simp
    qed
  qed
qed

text \<open>
  The reference date itself, found verbatim in the entry text, scores 1: this is the
  first disjunct of the date test.
\<close>

lemma recency_verbatim_date:
  assumes "current_date \<noteq> []" and "py_in current_date (entry_text title snippet)"
  shows "compute_recency_score L current_date title snippet = 1"
  using assms by (simp add: compute_recency_score_def date_hit_def Let_def)

lemmas scorer_eval = compute_recency_score_def date_hit_def has_recency_marker_def
  recency_markers_def now_year_of_def entry_text_def ascii_def nian_def yue_def ri_def
  ascii_lib_def ascii_int_def ascii_isdigit_def replace_char_def split_dash_first_def
  year_agrees_def

text \<open>
  \<open>search_year\<close> and the head of \<open>findall_year\<close> are the leftmost year mention.
\<close>

lemma findall_year_head:
  "(case findall_year d t of [] \<Rightarrow> None | y # _ \<Rightarrow> Some y) = search_year d t"
  by (induction d t rule: findall_year.induct) auto

lemma year_at_Cons: "year_at d (a # t) (Suc p) = year_at d t p"
  by (simp add: year_at_def add.commute)

lemma year_at_short: "length t < 5 \<Longrightarrow> \<not> year_at d t p"
  by (simp add: year_at_def)

lemma year_at_0:
  "year_at d (a # b # c # e # f # rest) 0 \<longleftrightarrow> d a \<and> d b \<and> d c \<and> d e \<and> f = nian"
  by (simp add: year_at_def)

lemma search_year_None: "search_year d t = None \<Longrightarrow> \<not> year_at d t p"
proof (induction d t arbitrary: p rule: search_year.induct)
  case (1 d a b c e f rest)
  then have nomatch: "\<not> (d a \<and> d b \<and> d c \<and> d e \<and> f = nian)"
    and tl: "search_year d (b # c # e # f # rest) = None"
    by (auto split: if_splits)
  show ?case
  proof (cases p)
    case 0
    then show ?thesis using nomatch year_at_0 by blast
  next
    case (Suc q)
    then show ?thesis using "1.IH" nomatch tl year_at_Cons by blast
  qed
qed (simp_all add: year_at_short)

lemma search_year_Some:
  "search_year d t = Some y \<Longrightarrow>
     \<exists>p. year_at d t p \<and> (\<forall>q<p. \<not> year_at d t q) \<and> y = take 4 (drop p t)"
proof (induction d t rule: search_year.induct)
  case (1 d a b c e f rest)
  show ?case
  proof (cases "d a \<and> d b \<and> d c \<and> d e \<and> f = nian")
    case True
    then have "y = [a, b, c, e]" using "1.prems" by simp
    then have "year_at d (a # b # c # e # f # rest) 0 \<and>
               (\<forall>q<0. \<not> year_at d (a # b # c # e # f # rest) q) \<and>
               y = take 4 (drop 0 (a # b # c # e # f # rest))"
      using True year_at_0 by simp
    then show ?thesis by blast
  next
    case False
    then have "search_year d (b # c # e # f # rest) = Some y"
      using "1.prems" by (auto split: if_splits)
    then obtain p where p: "year_at d (b # c # e # f # rest) p"
      "\<forall>q<p. \<not> year_at d (b # c # e # f # rest) q" "y = take 4 (drop p (b # c # e # f # rest))"
      using "1.IH" False by blast
    have "\<forall>q<Suc p. \<not> year_at d (a # b # c # e # f # rest) q"
    proof (intro allI impI)
      fix q assume "q < Suc p"
      show "\<not> year_at d (a # b # c # e # f # rest) q"
      proof (cases q)
        case 0
        then show ?thesis using False year_at_0 by blast
      next
        case (Suc r)
        then show ?thesis using \<open>q < Suc p\<close> p(2) year_at_Cons by auto
      qed
    qed
    moreover have "year_at d (a # b # c # e # f # rest) (Suc p)" using p(1) year_at_Cons by blast
    moreover have "y = take 4 (drop (Suc p) (a # b # c # e # f # rest))" using p(3) by simp
    ultimately show ?thesis by blast
  qed
qed simp_all

text \<open>
  Claim C6. A reference date that occurs in the entry text scores 1.0, in either the
  dashed form or the year-month-day form with CJK characters. The code converts the
  dashed date with \<open>replace('-', Y)\<close>, which turns \<open>2025-11-22\<close> into \<open>2025Y11Y22\<close>
  and not into the CJK form \<open>2025Y11M22D\<close>; so for the reference date \<open>2025-11-22\<close>
  an entry that carries this very date in the CJK form scores 0.6 (the year rule),
  not 1.0.
\<close>

theorem recency_cross_form_date:
  "py_in (ascii ''2025'' @ [nian] @ ascii ''11'' @ [yue] @ ascii ''22'' @ [ri])
     (entry_text [] (ascii ''2025'' @ [nian] @ ascii ''11'' @ [yue] @ ascii ''22'' @ [ri]))
   \<and> compute_recency_score ascii_lib (ascii ''2025-11-22'') []
       (ascii ''2025'' @ [nian] @ ascii ''11'' @ [yue] @ ascii ''22'' @ [ri]) = 6 / 10"
  by (simp add: scorer_eval)

text \<open>
  Claim C7, as the code has it. For an entry text on which the date test fails and
  that has no relative-recency marker, the score is decided by the leftmost year
  mention alone (four digits and the year character): 0.3 when there is none, 0.6
  when that leftmost year is the year of the reference date, 0.2 otherwise (also when
  a later mention carries the reference year, or the reference year is unknown or zero).
\<close>

theorem recency_year_rule:
  assumes "\<not> date_hit current_date (entry_text title snippet)"
    and "\<not> has_recency_marker (entry_text title snippet)"
  shows "compute_recency_score L current_date title snippet =
           (case search_year (py_isdigit L) (entry_text title snippet) of
              None \<Rightarrow> 3 / 10
            | Some y \<Rightarrow> if year_agrees L current_date y then 6 / 10 else 2 / 10)"
proof -
  let ?t = "entry_text title snippet"
  show ?thesis
  proof (cases "findall_year (py_isdigit L) ?t")
    case Nil
    then have "search_year (py_isdigit L) ?t = None"
      using findall_year_head [of "py_isdigit L" ?t] by simp
    then show ?thesis using assms Nil by (simp add: compute_recency_score_def)
  next
    case (Cons y ys)
    then have "search_year (py_isdigit L) ?t = Some y"
      using findall_year_head [of "py_isdigit L" ?t] by simp
    then show ?thesis using assms Cons
      by (simp add: compute_recency_score_def year_agrees_def split: option.splits)
  qed
qed

theorem recency_year_rule_witness:
  "\<not> date_hit (ascii ''2025-11-22'') (entry_text (ascii ''2024'' @ [nian]) (ascii ''2025'' @ [nian]))
   \<and> \<not> has_recency_marker (entry_text (ascii ''2024'' @ [nian]) (ascii ''2025'' @ [nian]))
   \<and> compute_recency_score ascii_lib (ascii ''2025-11-22'') (ascii ''2024'' @ [nian]) (ascii ''2025'' @ [nian]) = 2 / 10"
proof -
  have a: "\<not> date_hit (ascii ''2025-11-22'') (entry_text (ascii ''2024'' @ [nian]) (ascii ''2025'' @ [nian]))"
    by (simp add: scorer_eval)
  have b: "\<not> has_recency_marker (entry_text (ascii ''2024'' @ [nian]) (ascii ''2025'' @ [nian]))"
    by (simp add: scorer_eval)
  show ?thesis using a b recency_year_rule [OF a b, of ascii_lib]
    by (simp add: scorer_eval)
qed

text \<open>
  The claim as written fails: an entry that mentions the reference year 2025 after
  another year scores 0.2, not 0.6.
\<close>

theorem recency_same_year_counterexample:
  "\<not> date_hit (ascii ''2025-11-22'') (entry_text (ascii ''2024'' @ [nian]) (ascii ''2025'' @ [nian]))
   \<and> \<not> has_recency_marker (entry_text (ascii ''2024'' @ [nian]) (ascii ''2025'' @ [nian]))
   \<and> py_in (ascii ''2025'' @ [nian]) (entry_text (ascii ''2024'' @ [nian]) (ascii ''2025'' @ [nian]))
   \<and> now_year_of ascii_lib (ascii ''2025-11-22'') = Some 2025
   \<and> compute_recency_score ascii_lib (ascii ''2025-11-22'') (ascii ''2024'' @ [nian]) (ascii ''2025'' @ [nian]) \<noteq> 6 / 10"
  by (simp add: scorer_eval)

section \<open>Properties of the recommendation selection\<close>

lemma map_nth_upt_take: "map (\<lambda>i. f (s ! i)) [0 ..< min n (length s)] = map f (take n s)"
  by (rule nth_equalityI) (auto simp: min.commute)

lemma sorted_desc_mset: "mset (sorted_desc k xs) = mset xs"
  by (simp add: sorted_desc_def)

lemma sorted_desc_length: "length (sorted_desc k xs) = length xs"
  by (simp add: sorted_desc_def)

lemma sorted_desc_sorted: "sorted (map (\<lambda>x. - k x) (sorted_desc k xs))"
  by (simp add: sorted_desc_def)

lemma sorted_desc_take_drop:
  assumes "a \<in> set (take n (sorted_desc k xs))" and "b \<in> set (drop n (sorted_desc k xs))"
  shows "k b \<le> k a"
proof -
  let ?s = "sorted_desc k xs"
  have "sorted (map (\<lambda>x. - k x) (take n ?s) @ map (\<lambda>x. - k x) (drop n ?s))"
    using sorted_desc_sorted [of k xs] by (metis append_take_drop_id map_append)
  then have "\<forall>x\<in>set (map (\<lambda>x. - k x) (take n ?s)). \<forall>y\<in>set (map (\<lambda>x. - k x) (drop n ?s)). x \<le> y"
    by (simp add: sorted_append)
  then have "- k a \<le> - k b" using assms by simp
  then show ?thesis by simp
qed

text \<open>
  Claim C8. For a non-empty list of scored entries, \<open>review_search_results\<close>
  recommends the indices of exactly the entries whose final score is at least 0.4, in
  entry order; when no entry reaches 0.4, it recommends the indices of the top two
  entries by final score (of the only entry when there is one): two entries \<open>top\<close>,
  in descending score order, such that every other entry scores no more than they do.
\<close>

theorem recommend_selection:
  assumes "results \<noteq> []"
  shows "if \<exists>r\<in>set results. final_score r \<ge> threshold
         then recommend results = map r_index (filter (\<lambda>r. final_score r \<ge> threshold) results)
         else \<exists>top rest. recommend results = map r_index top
                \<and> length top = min 2 (length results)
                \<and> mset (top @ rest) = mset results
                \<and> sorted (map (\<lambda>r. - final_score r) top)
                \<and> (\<forall>a\<in>set top. \<forall>b\<in>set rest. final_score b \<le> final_score a)"
proof (cases "\<exists>r\<in>set results. final_score r \<ge> threshold")
  case True
  then have "filter (\<lambda>r. final_score r \<ge> threshold) results \<noteq> []"
    by (simp add: filter_empty_conv)
  then show ?thesis using True by (simp add: recommend_def)
next
  case False
  let ?s = "sorted_desc final_score results"
  have empty: "filter (\<lambda>r. final_score r \<ge> threshold) results = []"
    using False by (simp add: filter_empty_conv)
  have rec: "recommend results = map r_index (take 2 ?s)"
    using empty assms by (simp add: recommend_def Let_def map_nth_upt_take)
  have len: "length (take 2 ?s) = min 2 (length results)"
    by (simp add: sorted_desc_length min.commute)
  have ms: "mset (take 2 ?s @ drop 2 ?s) = mset results"
    by (simp add: sorted_desc_mset)
  have srt: "sorted (map (\<lambda>r. - final_score r) (take 2 ?s))"
    using sorted_desc_sorted [of final_score results]
    by (metis sorted_wrt_take take_map)
  have top: "\<forall>a\<in>set (take 2 ?s). \<forall>b\<in>set (drop 2 ?s). final_score b \<le> final_score a"
    by (intro ballI) (rule sorted_desc_take_drop)
  from rec len ms srt top have "\<exists>top rest. recommend results = map r_index top
                \<and> length top = min 2 (length results)
                \<and> mset (top @ rest) = mset results
                \<and> sorted (map (\<lambda>r. - final_score r) top)
                \<and> (\<forall>a\<in>set top. \<forall>b\<in>set rest. final_score b \<le> final_score a)"
    by blast
  then show ?thesis using False by simp
qed

lemma recommend_results0: "recommend results0 = [2, 3]"
  by (simp add: recommend_def results0_def threshold_def sorted_desc_def Let_def upt_rec)

theorem recommend_selection_witness:
  "results0 \<noteq> [] \<and> \<not> (\<exists>r\<in>set results0. final_score r \<ge> threshold)
   \<and> recommend results0 = [2, 3]
   \<and> (\<exists>top rest. recommend results0 = map r_index top
          \<and> length top = min 2 (length results0)
          \<and> mset (top @ rest) = mset results0
          \<and> sorted (map (\<lambda>r. - final_score r) top)
          \<and> (\<forall>a\<in>set top. \<forall>b\<in>set rest. final_score b \<le> final_score a))"
proof -
  have ne: "results0 \<noteq> []" by (simp add: results0_def)
  have none: "\<not> (\<exists>r\<in>set results0. final_score r \<ge> threshold)"
    by (simp add: results0_def threshold_def)
  have "\<exists>top rest. recommend results0 = map r_index top
          \<and> length top = min 2 (length results0)
          \<and> mset (top @ rest) = mset results0
          \<and> sorted (map (\<lambda>r. - final_score r) top)
          \<and> (\<forall>a\<in>set top. \<forall>b\<in>set rest. final_score b \<le> final_score a)"
    using recommend_selection [OF ne] none by (simp only: if_False)
  then show ?thesis using ne none recommend_results0 by blast
qed

section \<open>Properties of the tool dispatcher\<close>

lemma run_tool_key:
  "tool_message_key (fst (run_tool E L all_tools tool_func tc messages w)) = (tc_id tc, tc_name tc)"
  by (simp add: run_tool_def split: prod.splits sum.splits)

lemma execute_unknown_head:
  "lookup_tool all_tools (tc_name tc) = None \<Longrightarrow>
     execute_tool_calls E L all_tools (tc # post) messages w
       = execute_tool_calls E L all_tools post messages w"
  by simp

lemma execute_skip:
  "lookup_tool all_tools (tc_name tc) = None \<Longrightarrow>
     execute_tool_calls E L all_tools (pre @ tc # post) messages w
       = execute_tool_calls E L all_tools (pre @ post) messages w"
proof (induction pre arbitrary: w)
  case Nil
  then show ?case by simp
next
  case (Cons a pre)
  then show ?case by (simp split: option.splits prod.splits)
qed

lemma execute_keys:
  "map tool_message_key (fst (execute_tool_calls E L all_tools tcs messages w))
     = map (\<lambda>tc. (tc_id tc, tc_name tc)) (filter (known_call all_tools) tcs)"
proof (induction tcs arbitrary: w)
  case Nil
  then show ?case by simp
next
  case (Cons tc tcs)
  show ?case
  proof (cases "lookup_tool all_tools (tc_name tc)")
    case None
    then show ?thesis using Cons.IH by (simp add: known_call_def)
  next
    case (Some tool_func)
    obtain tm w1 where r: "run_tool E L all_tools tool_func tc messages w = (tm, w1)"
      by (cases "run_tool E L all_tools tool_func tc messages w")
    then have k: "tool_message_key tm = (tc_id tc, tc_name tc)"
      using run_tool_key [of E L all_tools tool_func tc messages w] by simp
    obtain tms w2 where e: "execute_tool_calls E L all_tools tcs messages w1 = (tms, w2)"
      by (cases "execute_tool_calls E L all_tools tcs messages w1")
    then have "map tool_message_key tms
      = map (\<lambda>tc. (tc_id tc, tc_name tc)) (filter (known_call all_tools) tcs)"
      using Cons.IH [of w1] by simp
    moreover have "known_call all_tools tc" using Some by (simp add: known_call_def)
    ultimately show ?thesis using Some r k e by simp
  qed
qed

text \<open>
  Claim C9. A requested tool call whose name matches no tool of the registry gets no
  tool message and raises nothing: \<open>execute_tool_calls\<close> returns what it returns
  without that call, messages and world alike, so the other calls of the round are
  processed unchanged; the tool messages answer exactly the calls with a known name,
  in order. (\<open>execute_tool_calls\<close> has no error result: every exception of a tool or
  of the review is caught inside it, for tool calls whose id is a string.)
\<close>

theorem unknown_tool_skipped:
  assumes "lookup_tool all_tools (tc_name tc) = None"
  shows "execute_tool_calls E L all_tools (pre @ tc # post) messages w
           = execute_tool_calls E L all_tools (pre @ post) messages w
         \<and> map tool_message_key (fst (execute_tool_calls E L all_tools (pre @ tc # post) messages w))
           = map (\<lambda>c. (tc_id c, tc_name c)) (filter (known_call all_tools) (pre @ post))"
proof -
  have a: "execute_tool_calls E L all_tools (pre @ tc # post) messages w
           = execute_tool_calls E L all_tools (pre @ post) messages w"
    by (rule execute_skip [OF assms])
  have b: "map tool_message_key (fst (execute_tool_calls E L all_tools (pre @ tc # post) messages w))
           = map (\<lambda>c. (tc_id c, tc_name c)) (filter (known_call all_tools) (pre @ post))"
    unfolding a by (rule execute_keys)
  from a b show ?thesis by (rule conjI)
qed

lemmas registry_eval = all_tools_registry_def review_search_results_name_def lookup_tool_def
  ascii_def call_time_def call_unknown_def

lemma str_of_nat_digit: "n < 10 \<Longrightarrow> str_of_nat n = [48 + n]"
  by (simp add: str_of_nat.simps)

lemma execute_example:
  "execute_tool_calls (test_env [] []) ascii_lib all_tools_registry [call_unknown, call_time] [] 0
     = ([ToolMessage (ascii ''result 0'') (ascii ''c1'') (ascii ''get_current_time'')], 1)"
  by (simp add: registry_eval run_tool_def review_step_def is_search_like_def test_env_def
      ascii_lib_def ascii_lower_def str_of_nat_digit)

theorem unknown_tool_skipped_witness:
  "lookup_tool all_tools_registry (tc_name call_unknown) = None
   \<and> execute_tool_calls (test_env [] []) ascii_lib all_tools_registry ([] @ call_unknown # [call_time]) [] 0
       = execute_tool_calls (test_env [] []) ascii_lib all_tools_registry ([] @ [call_time]) [] 0
   \<and> map tool_message_key
        (fst (execute_tool_calls (test_env [] []) ascii_lib all_tools_registry ([] @ call_unknown # [call_time]) [] 0))
       = [(ascii ''c1'', ascii ''get_current_time'')]"
proof -
  have u: "lookup_tool all_tools_registry (tc_name call_unknown) = None"
    by (simp add: registry_eval)
  have k: "filter (known_call all_tools_registry) ([] @ [call_time]) = [call_time]"
    by (simp add: known_call_def registry_eval)
  show ?thesis
    using u unknown_tool_skipped [OF u, of "test_env [] []" ascii_lib "[]" "[call_time]" "[]" 0] k
    by (simp add: call_time_def)
qed

section \<open>Properties of the review rewrite\<close>

lemma pad_entries_spec:
  "sorted (map (\<lambda>e. - score_key e) es) \<Longrightarrow>
     \<exists>pad. pad_entries es fe ex = fe @ pad \<and> pad_ok es fe ex pad"
proof (induction es arbitrary: fe ex)
  case Nil
  then show ?case by (simp add: pad_ok_def)
next
  case (Cons e es)
  then have srt: "sorted (map (\<lambda>e. - score_key e) es)"
    and le: "\<forall>x\<in>set es. score_key x \<le> score_key e"
    by auto
  show ?case
  proof (cases "length fe \<ge> 10")
    case True
    then have "pad_entries (e # es) fe ex = fe @ []" by simp
    moreover have "pad_ok (e # es) fe ex []" using True by (simp add: pad_ok_def)
    ultimately show ?thesis by blast
  next
    case short: False
    show ?thesis
    proof (cases "je_index e \<in> ex")
      case True
      obtain pad where p: "pad_entries es fe ex = fe @ pad" "pad_ok es fe ex pad"
        using Cons.IH [OF srt] by blast
      have "pad_entries (e # es) fe ex = fe @ pad" using short True p(1) by simp
      moreover have "pad_ok (e # es) fe ex pad"
      proof -
        have "\<forall>q\<in>set pad. je_index q \<noteq> je_index e"
          using p(2) True unfolding pad_ok_def by auto
        then show ?thesis using p(2) True unfolding pad_ok_def by auto
      qed
      ultimately show ?thesis by blast
    next
      case False
      obtain pad where p: "pad_entries es (fe @ [e]) (insert (je_index e) ex) = (fe @ [e]) @ pad"
        "pad_ok es (fe @ [e]) (insert (je_index e) ex) pad"
        using Cons.IH [OF srt] by blast
      have eq: "pad_entries (e # es) fe ex = fe @ (e # pad)" using short False p(1) by simp
      have sub: "set pad \<subseteq> set es" using p(2) by (simp add: pad_ok_def)
      have "set (e # pad) \<subseteq> set (e # es)" using sub by auto
      moreover have "distinct (map je_index (e # pad))"
        using p(2) unfolding pad_ok_def by auto
      moreover have "\<forall>q\<in>set (e # pad). je_index q \<notin> ex"
        using p(2) False unfolding pad_ok_def by auto
      moreover have "sorted (map (\<lambda>e. - score_key e) (e # pad))"
        using p(2) le sub unfolding pad_ok_def by auto
      moreover have "\<forall>q\<in>set (e # pad). \<forall>x\<in>set (e # es).
            je_index x = je_index q \<longrightarrow> score_key x \<le> score_key q"
      proof (intro ballI impI)
        fix q x assume q: "q \<in> set (e # pad)" and x: "x \<in> set (e # es)"
          and same: "je_index x = je_index q"
        show "score_key x \<le> score_key q"
        proof (cases "q = e")
          case True
          then show ?thesis using x le by auto
        next
          case False
          then have qp: "q \<in> set pad" using q by simp
          then have "je_index q \<noteq> je_index e" using p(2) unfolding pad_ok_def by auto
          then have "x \<in> set es" using x same by auto
          then show ?thesis using p(2) qp same unfolding pad_ok_def by blast
        qed
      qed
      moreover have "length fe \<le> 10 \<longrightarrow> length (fe @ e # pad) \<le> 10"
        using p(2) short unfolding pad_ok_def by auto
      moreover have "\<forall>x\<in>set (e # es). je_index x \<notin> ex \<union> je_index ` set (e # pad) \<longrightarrow>
            10 \<le> length (fe @ e # pad) \<and> (\<forall>q\<in>set (e # pad). score_key x \<le> score_key q)"
      proof (intro ballI impI)
        fix x assume x: "x \<in> set (e # es)" "je_index x \<notin> ex \<union> je_index ` set (e # pad)"
        then have xin: "x \<in> set es" by auto
        have "je_index x \<notin> insert (je_index e) ex \<union> je_index ` set pad" using x(2) by auto
        then have "10 \<le> length ((fe @ [e]) @ pad) \<and> (\<forall>q\<in>set pad. score_key x \<le> score_key q)"
          using p(2) xin unfolding pad_ok_def by blast
        then show "10 \<le> length (fe @ e # pad) \<and> (\<forall>q\<in>set (e # pad). score_key x \<le> score_key q)"
          using le xin by auto
      qed
      ultimately have "pad_ok (e # es) fe ex (e # pad)" unfolding pad_ok_def by blast
      then show ?thesis using eq by blast
    qed
  qed
qed

lemma enumerate_from_1:
  "enumerate 1 xs = map (\<lambda>j. (j + 1, xs ! j)) [0 ..< length xs]"
  by (rule nth_equalityI) (simp_all add: nth_enumerate_eq)

lemma render_entries_labels:
  "render_entries fe =
     review_header @ concat (map (\<lambda>j. render_entry (j + 1) (fe ! j)) [0 ..< length fe])"
  unfolding render_entries_def enumerate_from_1 by (simp add: comp_def)

lemma recommended_entries_length: "length (recommended_entries recs entries) \<le> 10"
proof -
  have "length (List.map_filter f xs) \<le> length xs" for f :: "int \<Rightarrow> json_entry option" and xs
    by (simp add: map_filter_def)
  then have "length (recommended_entries recs entries) \<le> length (take 10 recs)"
    unfolding recommended_entries_def by blast
  then show ?thesis by simp
qed

lemma select_final_entries_spec:
  "\<exists>pad. select_final_entries recs entries = recommended_entries recs entries @ pad
     \<and> pad_ok entries (recommended_entries recs entries)
          (je_index ` set (recommended_entries recs entries)) pad"
proof (cases "length (recommended_entries recs entries) < 10")
  case True
  let ?s = "sorted_desc score_key entries"
  have "sorted (map (\<lambda>e. - score_key e) ?s)" by (simp add: sorted_desc_def)
  then obtain pad where p: "pad_entries ?s (recommended_entries recs entries)
        (je_index ` set (recommended_entries recs entries)) = recommended_entries recs entries @ pad"
     "pad_ok ?s (recommended_entries recs entries) (je_index ` set (recommended_entries recs entries)) pad"
    using pad_entries_spec by blast
  have "set ?s = set entries" by (simp add: sorted_desc_def)
  then have "pad_ok entries (recommended_entries recs entries)
      (je_index ` set (recommended_entries recs entries)) pad"
    using p(2) unfolding pad_ok_def by simp
  then show ?thesis using True p(1) by (simp add: select_final_entries_def Let_def)
next
  case False
  then have "length (recommended_entries recs entries) = 10"
    using recommended_entries_length [of recs entries] by simp
  then have "pad_ok entries (recommended_entries recs entries)
      (je_index ` set (recommended_entries recs entries)) []"
    by (simp add: pad_ok_def)
  then show ?thesis using False by (simp add: select_final_entries_def Let_def)
qed

text \<open>
  The recommended entries, written out: for each of the first ten recommendations,
  in order, the last entry that carries this index, when there is one.
\<close>

lemma map_of_index_find:
  "map_of (map (\<lambda>e. (je_index e, e)) xs) i = find (\<lambda>e. je_index e = i) xs"
  by (induction xs) auto

lemma entry_map_find: "entry_map entries = (\<lambda>i. find (\<lambda>e. je_index e = i) (rev entries))"
  by (rule ext) (simp add: entry_map_def rev_map map_of_index_find)

lemma recommended_entries_explicit:
  "recommended_entries recs entries
     = List.map_filter (\<lambda>i. find (\<lambda>e. je_index e = i) (rev entries)) (take 10 recs)"
  by (simp add: recommended_entries_def entry_map_find)

lemma score_key_explicit:
  "score_key = (\<lambda>e. case je_final_score e of None \<Rightarrow> 0 | Some v \<Rightarrow> v)"
  by (rule ext) (simp add: score_key_def)

lemma select_final_entries_nonempty:
  assumes "entries \<noteq> []"
  shows "select_final_entries recs entries \<noteq> []"
proof -
  obtain pad where sel: "select_final_entries recs entries = recommended_entries recs entries @ pad"
    and ok: "pad_ok entries (recommended_entries recs entries)
               (je_index ` set (recommended_entries recs entries)) pad"
    using select_final_entries_spec by blast
  obtain e where e: "e \<in> set entries" using assms by (cases entries) auto
  show ?thesis
  proof (cases "je_index e \<in> je_index ` set (recommended_entries recs entries) \<union> je_index ` set pad")
    case True
    then have "set (recommended_entries recs entries @ pad) \<noteq> {}" by auto
    then show ?thesis using sel by auto
  next
    case False
    then have "10 \<le> length (recommended_entries recs entries @ pad)"
      using ok e unfolding pad_ok_def by blast
    then show ?thesis using sel by auto
  qed
qed

lemma filter_by_review_success:
  assumes "recs \<noteq> []" and "entries \<noteq> []"
  shows "filter_by_review recs entries = Some (render_entries (select_final_entries recs entries))"
  using assms select_final_entries_nonempty [OF assms(2), of recs]
  by (simp add: filter_by_review_def Let_def)

text \<open>
  The content of the tool message of a search-like tool whose review succeeds is the
  rebuilt text (lines 336, 337 and 350 to 359).
\<close>

lemma run_tool_rewrites:
  assumes "tool_ainvoke E tool_func (tc_args tc) w = (Inr result, w1)"
    and "is_search_like L (tc_name tc)"
    and "lookup_tool all_tools review_search_results_name = Some review_tool"
    and "tool_ainvoke E review_tool
           [(ascii ''formatted_results'', result),
            (ascii ''user_question'', user_question_of L messages),
            (ascii ''current_date'', now_date E w1)] w1 = (Inr review_result, w2)"
    and "json_review E review_result = Some (recs, entries)"
    and "recs \<noteq> []" and "entries \<noteq> []"
  shows "run_tool E L all_tools tool_func tc messages w
     = (ToolMessage (render_entries (select_final_entries recs entries)) (tc_id tc) (tc_name tc), w2)"
  using assms filter_by_review_success [OF assms(6) assms(7)]
  by (simp add: run_tool_def review_step_def Let_def)

lemma render_entry_label:
  "\<exists>body. render_entry i e = ascii ''['' @ str_of_nat i @ ascii ''] '' @ body"
  by (simp add: render_entry_def Let_def)

lemmas render_eval = filter_by_review_def select_final_entries_def recommended_entries_def
  entry_map_def List.map_filter_def sorted_desc_def score_key_def render_entries_def
  render_entry_def get_or_def enumerate_eq_zip entries3_def Let_def

lemma select_entries3: "map je_index (select_final_entries [3] entries3) = [3, 2, 1]"
  by (simp add: render_eval)

lemma filter_entries3: "filter_by_review [3] entries3 = Some rewritten3"
  by (simp add: render_eval rewritten3_def upt_rec str_of_nat_digit ascii_def)

lemma renumbering_differs:
  "\<exists>recs es t. filter_by_review recs es = Some t
     \<and> map je_index (select_final_entries recs es)
         \<noteq> map int [1 ..< Suc (length (select_final_entries recs es))]"
proof -
  have "length (map je_index (select_final_entries [3] entries3)) = 3"
    by (simp only: select_entries3) simp
  then have "length (select_final_entries [3] entries3) = 3" by simp
  then have "map je_index (select_final_entries [3] entries3)
         \<noteq> map int [1 ..< Suc (length (select_final_entries [3] entries3))]"
    using select_entries3 by (simp add: upt_rec)
  then show ?thesis using filter_entries3 by blast
qed

text \<open>
  Claim C10. Whenever the review-based filtering of a search tool's output succeeds
  (the tool returned, its name is search-like, the review tool is registered and
  returned, its result decodes to non-empty recommendations and entries), the content
  of the tool message is the header followed by one block per selected entry, the
  block at position \<open>j\<close> (from 0) starting with the label \<open>[j + 1]\<close>: the labels are 1 to
  k, with k at most 10. The selected entries are the recommended ones (for the first
  ten recommendations, in that order, the last entry carrying that index), then
  padding entries with new, pairwise different indices in descending order of
  \<open>final_score\<close> (0 when absent), the highest-scoring ones: a padding entry scores at
  least as much as every entry of its index, and an entry whose index is not selected
  was left out only because ten were reached, and scores no more than any padding
  entry. The labels are not the original indices in general: there is a review whose
  selected entries do not carry the indices 1 to k in order.
\<close>

theorem review_rewrite_renumbers:
  assumes tool: "tool_ainvoke E tool_func (tc_args tc) w = (Inr result, w1)"
    and sl: "is_search_like L (tc_name tc)"
    and rt: "lookup_tool all_tools review_search_results_name = Some review_tool"
    and rv: "tool_ainvoke E review_tool
           [(ascii ''formatted_results'', result),
            (ascii ''user_question'', user_question_of L messages),
            (ascii ''current_date'', now_date E w1)] w1 = (Inr review_result, w2)"
    and js: "json_review E review_result = Some (recommendations, entries)"
    and rne: "recommendations \<noteq> []"
    and ene: "entries \<noteq> []"
  shows "(\<exists>pad.
      let recommended = List.map_filter (\<lambda>idx. find (\<lambda>e. je_index e = idx) (rev entries))
                          (take 10 recommendations);
          final_entries = recommended @ pad;
          score = (\<lambda>e. case je_final_score e of None \<Rightarrow> 0 | Some v \<Rightarrow> v)
      in final_entries = select_final_entries recommendations entries
       \<and> run_tool E L all_tools tool_func tc messages w
           = (ToolMessage
                (review_header
                   @ concat (map (\<lambda>j. render_entry (j + 1) (final_entries ! j))
                       [0 ..< length final_entries]))
                (tc_id tc) (tc_name tc), w2)
       \<and> (\<forall>j<length final_entries. \<exists>body.
             render_entry (j + 1) (final_entries ! j)
               = ascii ''['' @ str_of_nat (j + 1) @ ascii ''] '' @ body)
       \<and> 0 < length final_entries \<and> length final_entries \<le> 10
       \<and> set pad \<subseteq> set entries
       \<and> distinct (map je_index pad)
       \<and> (\<forall>p\<in>set pad. je_index p \<notin> je_index ` set recommended)
       \<and> sorted (map (\<lambda>e. - score e) pad)
       \<and> (\<forall>p\<in>set pad. \<forall>e\<in>set entries. je_index e = je_index p \<longrightarrow> score e \<le> score p)
       \<and> (\<forall>e\<in>set entries. je_index e \<notin> je_index ` set final_entries \<longrightarrow>
             length final_entries = 10 \<and> (\<forall>p\<in>set pad. score e \<le> score p)))
    \<and> (\<exists>recs es t. filter_by_review recs es = Some t
          \<and> map je_index (select_final_entries recs es)
              \<noteq> map int [1 ..< Suc (length (select_final_entries recs es))])"
proof -
  let ?r = "List.map_filter (\<lambda>idx. find (\<lambda>e. je_index e = idx) (rev entries))
              (take 10 recommendations)"
  let ?sc = "\<lambda>e. case je_final_score e of None \<Rightarrow> 0 | Some v \<Rightarrow> v"
  have r: "recommended_entries recommendations entries = ?r"
    by (rule recommended_entries_explicit)
  obtain pad where sel: "select_final_entries recommendations entries = ?r @ pad"
    and ok: "pad_ok entries ?r (je_index ` set ?r) pad"
    using select_final_entries_spec [of recommendations entries] unfolding r by blast
  note ok' = ok [unfolded pad_ok_def score_key_explicit]
  have run: "run_tool E L all_tools tool_func tc messages w
      = (ToolMessage
           (review_header
              @ concat (map (\<lambda>j. render_entry (j + 1) ((?r @ pad) ! j)) [0 ..< length (?r @ pad)]))
           (tc_id tc) (tc_name tc), w2)"
    using run_tool_rewrites [OF tool sl rt rv js rne ene] sel
      render_entries_labels [of "?r @ pad"] by simp
  have lab: "\<forall>j<length (?r @ pad). \<exists>body.
      render_entry (j + 1) ((?r @ pad) ! j) = ascii ''['' @ str_of_nat (j + 1) @ ascii ''] '' @ body"
    using render_entry_label by blast
  have ne: "0 < length (?r @ pad)"
    using select_final_entries_nonempty [OF ene, of recommendations] sel by simp
  have len: "length (?r @ pad) \<le> 10"
    using ok' recommended_entries_length [of recommendations entries] unfolding r by blast
  have c1: "set pad \<subseteq> set entries" using ok' by blast
  have c2: "distinct (map je_index pad)" using ok' by blast
  have c3: "\<forall>p\<in>set pad. je_index p \<notin> je_index ` set ?r" using ok' by blast
  have c4: "sorted (map (\<lambda>e. - ?sc e) pad)" using ok' by blast
  have c5: "\<forall>p\<in>set pad. \<forall>e\<in>set entries. je_index e = je_index p \<longrightarrow> ?sc e \<le> ?sc p"
    using ok' by blast
  have c6: "\<forall>e\<in>set entries. je_index e \<notin> je_index ` set (?r @ pad) \<longrightarrow>
          length (?r @ pad) = 10 \<and> (\<forall>p\<in>set pad. ?sc e \<le> ?sc p)"
  proof (intro ballI impI)
    fix e assume e: "e \<in> set entries" "je_index e \<notin> je_index ` set (?r @ pad)"
    then have "je_index e \<notin> je_index ` set ?r \<union> je_index ` set pad" by auto
    then have "10 \<le> length (?r @ pad) \<and> (\<forall>p\<in>set pad. ?sc e \<le> ?sc p)"
      using ok' e(1) by blast
    then show "length (?r @ pad) = 10 \<and> (\<forall>p\<in>set pad. ?sc e \<le> ?sc p)"
      using len by auto
  qed
  have "\<exists>pad.
      let recommended = ?r;
          final_entries = recommended @ pad;
          score = ?sc
      in final_entries = select_final_entries recommendations entries
       \<and> run_tool E L all_tools tool_func tc messages w
           = (ToolMessage
                (review_header
                   @ concat (map (\<lambda>j. render_entry (j + 1) (final_entries ! j))
                       [0 ..< length final_entries]))
                (tc_id tc) (tc_name tc), w2)
       \<and> (\<forall>j<length final_entries. \<exists>body.
             render_entry (j + 1) (final_entries ! j)
               = ascii ''['' @ str_of_nat (j + 1) @ ascii ''] '' @ body)
       \<and> 0 < length final_entries \<and> length final_entries \<le> 10
       \<and> set pad \<subseteq> set entries
       \<and> distinct (map je_index pad)
       \<and> (\<forall>p\<in>set pad. je_index p \<notin> je_index ` set recommended)
       \<and> sorted (map (\<lambda>e. - score e) pad)
       \<and> (\<forall>p\<in>set pad. \<forall>e\<in>set entries. je_index e = je_index p \<longrightarrow> score e \<le> score p)
       \<and> (\<forall>e\<in>set entries. je_index e \<notin> je_index ` set final_entries \<longrightarrow>
             length final_entries = 10 \<and> (\<forall>p\<in>set pad. score e \<le> score p))"
    unfolding Let_def
    by (rule exI [of _ pad]) (intro conjI sel [symmetric] run lab ne len c1 c2 c3 c4 c5 c6)
  then show ?thesis using renumbering_differs by (rule conjI)
qed

lemmas review_run_eval = review_env_def call_search_def run_tool_def review_step_def
  is_search_like_def lookup_tool_def all_tools_registry_def review_search_results_name_def
  user_question_of_def msgs0_def ascii_lib_def ascii_lower_def ascii_def

lemma run_tool_search:
  "run_tool review_env ascii_lib all_tools_registry (ascii ''web_search'') call_search msgs0 0
     = (ToolMessage rewritten3 (ascii ''c3'') (ascii ''web_search''), 2)"
proof -
  have "filter_by_review [3] entries3 = Some rewritten3" by (rule filter_entries3)
  then show ?thesis by (simp add: review_run_eval)
qed

lemma execute_search:
  "execute_tool_calls review_env ascii_lib all_tools_registry [call_search] msgs0 0
     = ([ToolMessage rewritten3 (ascii ''c3'') (ascii ''web_search'')], 2)"
proof -
  have "lookup_tool all_tools_registry (tc_name call_search) = Some (ascii ''web_search'')"
    by (simp add: lookup_tool_def all_tools_registry_def call_search_def ascii_def)
  then show ?thesis using run_tool_search by simp
qed

lemma select_entries3_list:
  "select_final_entries [3] entries3 = [entries3 ! 2, entries3 ! 1, entries3 ! 0]"
  by (simp add: render_eval)

lemma recommended_entries3:
  "List.map_filter (\<lambda>idx. find (\<lambda>e. je_index e = idx) (rev entries3)) (take 10 [3])
     = [entries3 ! 2]"
  by (simp add: List.map_filter_def entries3_def)

theorem review_rewrite_renumbers_witness:
  "is_search_like ascii_lib (tc_name call_search)
   \<and> json_review review_env (ascii ''review'') = Some ([3], entries3)
   \<and> execute_tool_calls review_env ascii_lib all_tools_registry [call_search] msgs0 0
       = ([ToolMessage rewritten3 (ascii ''c3'') (ascii ''web_search'')], 2)
   \<and> map je_index (select_final_entries [3] entries3) = [3, 2, 1]
   \<and> (\<exists>pad. map je_index pad = [2, 1] \<and>
     (let recommended = List.map_filter (\<lambda>idx. find (\<lambda>e. je_index e = idx) (rev entries3))
                          (take 10 [3]);
          final_entries = recommended @ pad;
          score = (\<lambda>e. case je_final_score e of None \<Rightarrow> 0 | Some v \<Rightarrow> v)
      in final_entries = select_final_entries [3] entries3
       \<and> run_tool review_env ascii_lib all_tools_registry (ascii ''web_search'') call_search msgs0 0
           = (ToolMessage
                (review_header
                   @ concat (map (\<lambda>j. render_entry (j + 1) (final_entries ! j))
                       [0 ..< length final_entries]))
                (tc_id call_search) (tc_name call_search), 2)
       \<and> (\<forall>j<length final_entries. \<exists>body.
             render_entry (j + 1) (final_entries ! j)
               = ascii ''['' @ str_of_nat (j + 1) @ ascii ''] '' @ body)
       \<and> 0 < length final_entries \<and> length final_entries \<le> 10
       \<and> set pad \<subseteq> set entries3
       \<and> distinct (map je_index pad)
       \<and> (\<forall>p\<in>set pad. je_index p \<notin> je_index ` set recommended)
       \<and> sorted (map (\<lambda>e. - score e) pad)
       \<and> (\<forall>p\<in>set pad. \<forall>e\<in>set entries3. je_index e = je_index p \<longrightarrow> score e \<le> score p)
       \<and> (\<forall>e\<in>set entries3. je_index e \<notin> je_index ` set final_entries \<longrightarrow>
             length final_entries = 10 \<and> (\<forall>p\<in>set pad. score e \<le> score p))))"
proof -
  have tool: "tool_ainvoke review_env (ascii ''web_search'') (tc_args call_search) 0
                = (Inr (ascii ''raw''), 1)"
    by (simp add: review_env_def review_search_results_name_def ascii_def)
  have sl: "is_search_like ascii_lib (tc_name call_search)"
    by (simp add: is_search_like_def call_search_def ascii_lib_def ascii_lower_def ascii_def)
  have rt: "lookup_tool all_tools_registry review_search_results_name
              = Some review_search_results_name"
    by (simp add: lookup_tool_def all_tools_registry_def review_search_results_name_def ascii_def)
  have rv: "tool_ainvoke review_env review_search_results_name
           [(ascii ''formatted_results'', ascii ''raw''),
            (ascii ''user_question'', user_question_of ascii_lib msgs0),
            (ascii ''current_date'', now_date review_env 1)] 1 = (Inr (ascii ''review''), 2)"
    by (simp add: review_env_def)
  have js: "json_review review_env (ascii ''review'') = Some ([3], entries3)"
    by (simp add: review_env_def)
  have rne: "[3::int] \<noteq> []" by simp
  have ene: "entries3 \<noteq> []" by (simp add: entries3_def)
  note w = review_rewrite_renumbers [OF tool sl rt rv js rne ene, THEN conjunct1]
  from w obtain pad where p:
    "let recommended = List.map_filter (\<lambda>idx. find (\<lambda>e. je_index e = idx) (rev entries3))
                          (take 10 [3]);
          final_entries = recommended @ pad;
          score = (\<lambda>e. case je_final_score e of None \<Rightarrow> 0 | Some v \<Rightarrow> v)
      in final_entries = select_final_entries [3] entries3
       \<and> run_tool review_env ascii_lib all_tools_registry (ascii ''web_search'') call_search msgs0 0
           = (ToolMessage
                (review_header
                   @ concat (map (\<lambda>j. render_entry (j + 1) (final_entries ! j))
                       [0 ..< length final_entries]))
                (tc_id call_search) (tc_name call_search), 2)
       \<and> (\<forall>j<length final_entries. \<exists>body.
             render_entry (j + 1) (final_entries ! j)
               = ascii ''['' @ str_of_nat (j + 1) @ ascii ''] '' @ body)
       \<and> 0 < length final_entries \<and> length final_entries \<le> 10
       \<and> set pad \<subseteq> set entries3
       \<and> distinct (map je_index pad)
       \<and> (\<forall>p\<in>set pad. je_index p \<notin> je_index ` set recommended)
       \<and> sorted (map (\<lambda>e. - score e) pad)
       \<and> (\<forall>p\<in>set pad. \<forall>e\<in>set entries3. je_index e = je_index p \<longrightarrow> score e \<le> score p)
       \<and> (\<forall>e\<in>set entries3. je_index e \<notin> je_index ` set final_entries \<longrightarrow>
             length final_entries = 10 \<and> (\<forall>p\<in>set pad. score e \<le> score p))"
    by (rule exE)
  have "List.map_filter (\<lambda>idx. find (\<lambda>e. je_index e = idx) (rev entries3)) (take 10 [3]) @ pad
          = select_final_entries [3] entries3"
    using p [unfolded Let_def] by (rule conjunct1)
  then have "[entries3 ! 2] @ pad = [entries3 ! 2, entries3 ! 1, entries3 ! 0]"
    by (simp only: recommended_entries3 select_entries3_list)
  then have "pad = [entries3 ! 1, entries3 ! 0]" by simp
  then have idx: "map je_index pad = [2, 1]" by (simp add: entries3_def)
  from idx p have ex: "\<exists>pad. map je_index pad = [2, 1] \<and>
     (let recommended = List.map_filter (\<lambda>idx. find (\<lambda>e. je_index e = idx) (rev entries3))
                          (take 10 [3]);
          final_entries = recommended @ pad;
          score = (\<lambda>e. case je_final_score e of None \<Rightarrow> 0 | Some v \<Rightarrow> v)
      in final_entries = select_final_entries [3] entries3
       \<and> run_tool review_env ascii_lib all_tools_registry (ascii ''web_search'') call_search msgs0 0
           = (ToolMessage
                (review_header
                   @ concat (map (\<lambda>j. render_entry (j + 1) (final_entries ! j))
                       [0 ..< length final_entries]))
                (tc_id call_search) (tc_name call_search), 2)
       \<and> (\<forall>j<length final_entries. \<exists>body.
             render_entry (j + 1) (final_entries ! j)
               = ascii ''['' @ str_of_nat (j + 1) @ ascii ''] '' @ body)
       \<and> 0 < length final_entries \<and> length final_entries \<le> 10
       \<and> set pad \<subseteq> set entries3
       \<and> distinct (map je_index pad)
       \<and> (\<forall>p\<in>set pad. je_index p \<notin> je_index ` set recommended)
       \<and> sorted (map (\<lambda>e. - score e) pad)
       \<and> (\<forall>p\<in>set pad. \<forall>e\<in>set entries3. je_index e = je_index p \<longrightarrow> score e \<le> score p)
       \<and> (\<forall>e\<in>set entries3. je_index e \<notin> je_index ` set final_entries \<longrightarrow>
             length final_entries = 10 \<and> (\<forall>p\<in>set pad. score e \<le> score p)))"
    by (intro exI [of _ pad] conjI)
  from sl js execute_search select_entries3 ex show ?thesis by (intro conjI)
qed

section \<open>Properties of the orchestration loop\<close>

lemma tool_loop_events:
  "tool_loop E L all_tools mdl max_iterations iteration messages w = (evs, calls, r, w') \<Longrightarrow>
     list_all is_tool_event evs
     \<and> length (filter is_tool_calls evs) \<le> nat (max_iterations - iteration)
     \<and> length calls \<le> nat (max_iterations - iteration)
     \<and> list_all (\<lambda>c. is_ainvoke c \<and> call_model c = mdl) calls"
proof (induction E L all_tools mdl max_iterations iteration messages w
        arbitrary: evs calls r w' rule: tool_loop.induct)
  case (1 E L all_tools mdl max_iterations iteration messages w)
  show ?case
  proof (cases "iteration < max_iterations")
    case False
    then show ?thesis using "1.prems" by (auto simp: tool_loop.simps)
  next
    case lt: True
    obtain res w1 where inv: "ainvoke E mdl messages w = (res, w1)"
      by (cases "ainvoke E mdl messages w")
    show ?thesis
    proof (cases res)
      case (Inl err)
      then show ?thesis using "1.prems" lt inv by (auto simp: tool_loop.simps)
    next
      case (Inr resp)
      obtain c tool_calls where resp: "resp = (c, tool_calls)" by (cases resp)
      show ?thesis
      proof (cases "tool_calls = []")
        case True
        then show ?thesis using "1.prems" lt inv Inr resp by (auto simp: tool_loop.simps)
      next
        case False
        obtain tms w2 where ex: "execute_tool_calls E L all_tools tool_calls
            (messages @ [AIMessage c tool_calls]) w1 = (tms, w2)"
          by (cases "execute_tool_calls E L all_tools tool_calls (messages @ [AIMessage c tool_calls]) w1")
        obtain evs1 calls1 r1 w3 where rec: "tool_loop E L all_tools mdl max_iterations (iteration + 1)
            ((messages @ [AIMessage c tool_calls]) @ tms) w2 = (evs1, calls1, r1, w3)"
          by (cases "tool_loop E L all_tools mdl max_iterations (iteration + 1)
            ((messages @ [AIMessage c tool_calls]) @ tms) w2") auto
        have ih: "list_all is_tool_event evs1
          \<and> length (filter is_tool_calls evs1) \<le> nat (max_iterations - (iteration + 1))
          \<and> length calls1 \<le> nat (max_iterations - (iteration + 1))
          \<and> list_all (\<lambda>c. is_ainvoke c \<and> call_model c = mdl) calls1"
          using "1.IH" [OF lt inv [symmetric] Inr resp [symmetric] False refl ex [symmetric] refl refl rec]
          by simp
        have out: "evs = ToolCalls (map (\<lambda>tc. (tc_name tc, tc_args tc)) tool_calls)
                      # ToolResults (map tool_result_entry tms) # evs1"
          "calls = Ainvoke mdl messages # calls1"
          using "1.prems" lt inv Inr resp False ex rec
          by (simp_all add: tool_loop.simps [of E L all_tools mdl max_iterations iteration messages w])
        show ?thesis using ih out lt by auto
      qed
    qed
  qed
qed

lemma process_chunk_cases:
  "process_chunk r st c =
     (if reasoning_unit r c then
        ((if \<not> thought_process_started st then [ThoughtProcessStart] else [])
           @ [ThoughtProcessContent (reasoning_content_of c)],
         st\<lparr>thought_process_started := True\<rparr>)
      else if answer_unit r c then
        ((if r \<and> thought_process_started st \<and> \<not> thought_process_ended st
          then [ThoughtProcessEnd] else [])
           @ (if \<not> answer_started st then [AnswerStart] else [])
           @ [ContentDelta (chunk_content c)],
         st\<lparr>thought_process_ended :=
               (thought_process_ended st \<or> (r \<and> thought_process_started st \<and> \<not> thought_process_ended st)),
            answer_started := True,
            full_response := full_response st @ chunk_content c\<rparr>)
      else ([], st))"
  by (simp add: process_chunk_def reasoning_unit_def answer_unit_def Let_def)

lemma stream_no_terminal:
  "list_all (\<lambda>e. \<not> is_terminal e \<and> \<not> is_tool_calls e) (fst (stream_chunks r st cs))"
  by (induction cs arbitrary: st) (simp_all add: process_chunk_cases split_beta)

lemma stream_deltas:
  "filter is_content_delta (fst (stream_chunks r st cs))
     = map ContentDelta (map chunk_content (filter (answer_unit r) cs))"
  by (induction cs arbitrary: st) (auto simp: process_chunk_cases split_beta answer_unit_def)

lemma stream_full_response:
  "full_response (snd (stream_chunks r st cs))
     = full_response st @ concat (map chunk_content (filter (answer_unit r) cs))"
  by (induction cs arbitrary: st) (auto simp: process_chunk_cases split_beta answer_unit_def)

lemma stream_reasoning_only:
  "\<forall>c\<in>set cs. chunk_content c = [] \<Longrightarrow>
     filter is_thought_end (fst (stream_chunks r st cs)) = []
     \<and> thought_process_ended (snd (stream_chunks r st cs)) = thought_process_ended st
     \<and> thought_process_started (snd (stream_chunks r st cs))
         = (thought_process_started st \<or> (\<exists>c\<in>set cs. reasoning_unit r c))"
  by (induction cs arbitrary: st) (auto simp: process_chunk_cases split_beta answer_unit_def)

lemma final_stream_error:
  assumes "astream E mdl messages w = ((chunks, Some err), w1)"
  shows "fst (final_streaming E mdl model_name messages pdf_chunks session_id w)
     = fst (stream_chunks (model_name = Some deepseek_reasoner) split_init chunks) @ [Error err]"
  using assms by (simp add: final_streaming_def split_beta Let_def)

lemma final_stream_ref_error:
  assumes "astream E mdl messages w = ((chunks, None), w1)"
    and "references_of E
           (full_response (snd (stream_chunks (model_name = Some deepseek_reasoner) split_init chunks)))
           pdf_chunks = Inl err"
  shows "fst (final_streaming E mdl model_name messages pdf_chunks session_id w)
     = fst (stream_chunks (model_name = Some deepseek_reasoner) split_init chunks)
       @ closing_events (model_name = Some deepseek_reasoner)
           (snd (stream_chunks (model_name = Some deepseek_reasoner) split_init chunks))
       @ [Error err]"
  using assms by (simp add: final_streaming_def split_beta Let_def)

lemma final_stream_complete:
  assumes "astream E mdl messages w = ((chunks, None), w1)"
    and "references_of E
           (full_response (snd (stream_chunks (model_name = Some deepseek_reasoner) split_init chunks)))
           pdf_chunks = Inr references"
  shows "fst (final_streaming E mdl model_name messages pdf_chunks session_id w)
     = fst (stream_chunks (model_name = Some deepseek_reasoner) split_init chunks)
       @ closing_events (model_name = Some deepseek_reasoner)
           (snd (stream_chunks (model_name = Some deepseek_reasoner) split_init chunks))
       @ [MessageComplete
            (full_response (snd (stream_chunks (model_name = Some deepseek_reasoner) split_init chunks)))
            references]"
  using assms by (simp add: final_streaming_def split_beta Let_def)

lemma closing_no_terminal:
  "list_all (\<lambda>e. \<not> is_terminal e \<and> \<not> is_tool_calls e) (closing_events r st)"
  by (simp add: closing_events_def)

lemma final_streaming_terminal:
  "\<exists>pre t. fst (final_streaming E mdl model_name messages pdf_chunks session_id w) = pre @ [t]
     \<and> is_terminal t \<and> list_all (\<lambda>e. \<not> is_terminal e \<and> \<not> is_tool_calls e) pre"
proof -
  let ?r = "model_name = Some deepseek_reasoner"
  obtain chunks exn w1 where a: "astream E mdl messages w = ((chunks, exn), w1)"
    by (metis surj_pair)
  let ?evs = "fst (stream_chunks ?r split_init chunks)"
  let ?st = "snd (stream_chunks ?r split_init chunks)"
  have n1: "list_all (\<lambda>e. \<not> is_terminal e \<and> \<not> is_tool_calls e) ?evs"
    by (rule stream_no_terminal)
  have n2: "list_all (\<lambda>e. \<not> is_terminal e \<and> \<not> is_tool_calls e) (?evs @ closing_events ?r ?st)"
    using n1 closing_no_terminal [of ?r ?st] by simp
  show ?thesis
  proof (cases exn)
    case (Some err)
    then have "fst (final_streaming E mdl model_name messages pdf_chunks session_id w) = ?evs @ [Error err]"
      using final_stream_error [of E mdl messages w chunks err w1 model_name pdf_chunks session_id] a
      by simp
    moreover have "is_terminal (Error err)" by simp
    ultimately show ?thesis using n1 by blast
  next
    case None
    show ?thesis
    proof (cases "references_of E (full_response ?st) pdf_chunks")
      case (Inl err)
      then have "fst (final_streaming E mdl model_name messages pdf_chunks session_id w)
          = (?evs @ closing_events ?r ?st) @ [Error err]"
        using final_stream_ref_error [of E mdl messages w chunks w1 model_name pdf_chunks err session_id]
          a None by simp
      moreover have "is_terminal (Error err)" by simp
      ultimately show ?thesis using n2 by blast
    next
      case (Inr references)
      then have "fst (final_streaming E mdl model_name messages pdf_chunks session_id w)
          = (?evs @ closing_events ?r ?st) @ [MessageComplete (full_response ?st) references]"
        using final_stream_complete [of E mdl messages w chunks w1 model_name pdf_chunks references session_id]
          a None by simp
      moreover have "is_terminal (MessageComplete (full_response ?st) references)" by simp
      ultimately show ?thesis using n2 by blast
    qed
  qed
qed

lemma generate_model_error:
  assumes "get_chat_model_with_tools E model_name enable_tools w = Inl err"
  shows "generate_streaming_response_with_tools E L all_tools messages model_name pdf_chunks
           enable_tools max_iterations session_id w = ([Error err], [], w)"
  using assms by (simp add: generate_streaming_response_with_tools_def)

lemma generate_loop_error:
  assumes "get_chat_model_with_tools E model_name enable_tools w = Inr mdl"
    and "tool_loop E L all_tools mdl max_iterations 0 (add_pdf_context pdf_chunks messages) w
           = (evs, calls, Inl err, w1)"
  shows "generate_streaming_response_with_tools E L all_tools messages model_name pdf_chunks
           enable_tools max_iterations session_id w
         = (session_events session_id @ evs @ [Error err], calls, w1)"
  using assms by (simp add: generate_streaming_response_with_tools_def)

lemma generate_streams:
  assumes "get_chat_model_with_tools E model_name enable_tools w = Inr mdl"
    and "tool_loop E L all_tools mdl max_iterations 0 (add_pdf_context pdf_chunks messages) w
           = (evs, calls, Inr messages1, w1)"
  shows "events_of (generate_streaming_response_with_tools E L all_tools messages model_name
           pdf_chunks enable_tools max_iterations session_id w)
         = session_events session_id @ evs
           @ fst (final_streaming E mdl model_name messages1 pdf_chunks session_id w1)"
    and "calls_of (generate_streaming_response_with_tools E L all_tools messages model_name
           pdf_chunks enable_tools max_iterations session_id w)
         = calls @ [Astream mdl messages1]"
  using assms
  by (simp_all add: generate_streaming_response_with_tools_def events_of_def calls_of_def split_beta)

lemma session_events_plain:
  "list_all (\<lambda>e. \<not> is_terminal e \<and> \<not> is_tool_calls e) (session_events session_id)"
  by (simp add: session_events_def split: option.splits)

lemma tool_events_not_terminal: "list_all is_tool_event evs \<Longrightarrow> filter is_terminal evs = []"
proof (induction evs)
  case Nil
  then show ?case by simp
next
  case (Cons e evs)
  then show ?case by (cases e) simp_all
qed

lemma plain_filters:
  "list_all (\<lambda>e. \<not> is_terminal e \<and> \<not> is_tool_calls e) evs \<Longrightarrow>
     filter is_terminal evs = [] \<and> filter is_tool_calls evs = []"
  by (induction evs) simp_all

text \<open>
  Claim C1. For every run of \<open>generate_streaming_response_with_tools\<close> with
  iteration ceiling \<open>max_iterations\<close> = N, whatever the collaborators do: at most N
  rounds of tool dispatch are performed (at most N \<open>tool_calls\<close> events, and at most N
  non-streaming model invocations; none when N is not positive), and the event
  stream ends with its only terminating event, a \<open>message_complete\<close> or an \<open>error\<close>.
  This includes the runs in which every invocation up to the ceiling asks for tools.
\<close>

theorem bounded_rounds_one_terminal:
  "length (filter is_tool_calls (events_of (generate_streaming_response_with_tools E L all_tools
      messages model_name pdf_chunks enable_tools max_iterations session_id w)))
     \<le> nat max_iterations
   \<and> length (filter is_ainvoke (calls_of (generate_streaming_response_with_tools E L all_tools
      messages model_name pdf_chunks enable_tools max_iterations session_id w)))
     \<le> nat max_iterations
   \<and> (\<exists>pre t. events_of (generate_streaming_response_with_tools E L all_tools
          messages model_name pdf_chunks enable_tools max_iterations session_id w) = pre @ [t]
        \<and> is_terminal t \<and> filter is_terminal pre = [])"
proof (cases "get_chat_model_with_tools E model_name enable_tools w")
  case (Inl err)
  have "is_terminal (Error err)" by simp
  then show ?thesis
    using generate_model_error [OF Inl, of L all_tools messages pdf_chunks max_iterations session_id]
    by (simp add: events_of_def calls_of_def)
next
  case (Inr mdl)
  obtain evs calls r w1 where
    lp: "tool_loop E L all_tools mdl max_iterations 0 (add_pdf_context pdf_chunks messages) w
           = (evs, calls, r, w1)"
    by (metis surj_pair)
  have tl: "list_all is_tool_event evs"
    "length (filter is_tool_calls evs) \<le> nat max_iterations"
    "length calls \<le> nat max_iterations"
    "list_all (\<lambda>c. is_ainvoke c \<and> call_model c = mdl) calls"
    using tool_loop_events [OF lp] by simp_all
  have nt: "filter is_terminal evs = []" using tl(1) by (rule tool_events_not_terminal)
  have s0: "filter is_terminal (session_events session_id) = []"
    "filter is_tool_calls (session_events session_id) = []"
    using plain_filters [OF session_events_plain] by simp_all
  have cl: "length (filter is_ainvoke calls) \<le> nat max_iterations"
    using tl(3) length_filter_le [of is_ainvoke calls] by linarith
  show ?thesis
  proof (cases r)
    case (Inl err)
    have g: "generate_streaming_response_with_tools E L all_tools messages model_name pdf_chunks
           enable_tools max_iterations session_id w
         = ((session_events session_id @ evs) @ [Error err], calls, w1)"
      using generate_loop_error [OF Inr] lp Inl by simp
    have "filter is_terminal (session_events session_id @ evs) = []" using s0 nt by simp
    moreover have "is_terminal (Error err)" by simp
    ultimately have "\<exists>pre t. events_of (generate_streaming_response_with_tools E L all_tools
          messages model_name pdf_chunks enable_tools max_iterations session_id w) = pre @ [t]
        \<and> is_terminal t \<and> filter is_terminal pre = []"
      using g unfolding events_of_def by (metis fst_conv)
    then show ?thesis using g s0 tl(2) cl by (simp add: events_of_def calls_of_def)
  next
    case (Inr messages1)
    note lp1 = lp [unfolded Inr]
    note ev = generate_streams(1) [OF \<open>get_chat_model_with_tools E model_name enable_tools w = Inr mdl\<close> lp1,
        of session_id]
    note ca = generate_streams(2) [OF \<open>get_chat_model_with_tools E model_name enable_tools w = Inr mdl\<close> lp1,
        of session_id]
    obtain pre t where f: "fst (final_streaming E mdl model_name messages1 pdf_chunks session_id w1) = pre @ [t]"
      "is_terminal t" "list_all (\<lambda>e. \<not> is_terminal e \<and> \<not> is_tool_calls e) pre"
      using final_streaming_terminal [of E mdl model_name messages1 pdf_chunks session_id w1]
      by blast
    have pf: "filter is_terminal pre = []" "filter is_tool_calls pre = []"
      using plain_filters [OF f(3)] by simp_all
    have e2: "events_of (generate_streaming_response_with_tools E L all_tools messages model_name
           pdf_chunks enable_tools max_iterations session_id w)
         = (session_events session_id @ evs @ pre) @ [t]"
      using ev f(1) by simp
    have "filter is_terminal (session_events session_id @ evs @ pre) = []"
      using s0 nt pf by simp
    then have one: "\<exists>pre t. events_of (generate_streaming_response_with_tools E L all_tools
          messages model_name pdf_chunks enable_tools max_iterations session_id w) = pre @ [t]
        \<and> is_terminal t \<and> filter is_terminal pre = []"
      using e2 f(2) by blast
    have nt_t: "\<not> is_tool_calls t" using f(2) by (cases t) simp_all
    have rounds: "length (filter is_tool_calls (events_of (generate_streaming_response_with_tools E L
           all_tools messages model_name pdf_chunks enable_tools max_iterations session_id w)))
         \<le> nat max_iterations"
      using e2 s0 pf nt_t tl(2) by simp
    have invs: "length (filter is_ainvoke (calls_of (generate_streaming_response_with_tools E L
           all_tools messages model_name pdf_chunks enable_tools max_iterations session_id w)))
         \<le> nat max_iterations"
      using ca cl by simp
    from rounds invs one show ?thesis by blast
  qed
qed

text \<open>Two runs in the small world: no tool call, and tool calls up to a ceiling of 2.\<close>

lemmas run_eval = generate_streaming_response_with_tools_def get_chat_model_with_tools_def
  test_env_def add_pdf_context_def session_events_def session_of_def final_streaming_def
  closing_events_def references_of_def split_init_def process_chunk_def reasoning_content_of_def
  get_or_def run_tool_def review_step_def is_search_like_def lookup_tool_def
  all_tools_registry_def review_search_results_name_def ascii_lib_def ascii_lower_def
  truncate_200_def call_time_def chunk_hi_def chunk_both_def chunk_think_def msgs0_def
  deepseek_chat_def deepseek_reasoner_def ascii_def events_of_def calls_of_def
  chat_with_tools_def Let_def str_of_nat_digit

lemma run_simple:
  "generate_streaming_response_with_tools (test_env [] [chunk_hi]) ascii_lib all_tools_registry
     msgs0 (Some deepseek_chat) [] True 5 (Some (ascii ''s1'')) 0
   = ([SessionInit (ascii ''s1''), AnswerStart, ContentDelta (ascii ''hi''),
       MessageComplete (ascii ''hi'') []],
      [Ainvoke chat_with_tools msgs0, Astream chat_with_tools msgs0], 3)"
  by (simp add: run_eval tool_loop.simps)

lemma run_ceiling:
  "generate_streaming_response_with_tools (test_env [call_time] [chunk_hi]) ascii_lib
     all_tools_registry msgs0 (Some deepseek_chat) [] True 2 None 0
   = ([ToolCalls [(ascii ''get_current_time'', [])],
       ToolResults [(ascii ''get_current_time'', ascii ''result 1'')],
       ToolCalls [(ascii ''get_current_time'', [])],
       ToolResults [(ascii ''get_current_time'', ascii ''result 3'')],
       AnswerStart, ContentDelta (ascii ''hi''), MessageComplete (ascii ''hi'') []],
      [Ainvoke chat_with_tools msgs0,
       Ainvoke chat_with_tools (msgs0 @ [AIMessage (Text []) [call_time], time_result 1]),
       Astream chat_with_tools msgs_ceiling], 5)"
  by (simp add: run_eval tool_loop.simps time_result_def msgs_ceiling_def)

theorem bounded_rounds_one_terminal_witness:
  "length (filter is_tool_calls (events_of (generate_streaming_response_with_tools
      (test_env [call_time] [chunk_hi]) ascii_lib all_tools_registry msgs0 (Some deepseek_chat)
      [] True 2 None 0))) = 2
   \<and> (\<exists>pre t. events_of (generate_streaming_response_with_tools
      (test_env [call_time] [chunk_hi]) ascii_lib all_tools_registry msgs0 (Some deepseek_chat)
      [] True 2 None 0) = pre @ [t] \<and> is_terminal t \<and> filter is_terminal pre = [])"
proof -
  have "length (filter is_tool_calls (events_of (generate_streaming_response_with_tools
      (test_env [call_time] [chunk_hi]) ascii_lib all_tools_registry msgs0 (Some deepseek_chat)
      [] True 2 None 0))) = 2"
    by (simp add: run_ceiling events_of_def)
  then show ?thesis
    using bounded_rounds_one_terminal [of "test_env [call_time] [chunk_hi]" ascii_lib
        all_tools_registry msgs0 "Some deepseek_chat" "[]" True 2 None 0]
    by blast
qed

lemma reasoning_needs_kwargs: "reasoning_content_of c \<noteq> [] \<Longrightarrow> additional_kwargs c \<noteq> []"
  by (auto simp: reasoning_content_of_def get_or_def)

lemma reasoning_unit_reasoner: "reasoning_unit True c \<longleftrightarrow> reasoning_content_of c \<noteq> []"
  using reasoning_needs_kwargs by (auto simp: reasoning_unit_def)

lemma answer_unit_reasoner:
  "answer_unit True = (\<lambda>c. chunk_content c \<noteq> [] \<and> reasoning_content_of c = [])"
  by (rule ext) (simp add: answer_unit_def reasoning_unit_reasoner)





lemma start_events_plain:
  assumes "list_all is_tool_event evs"
  shows "filter is_terminal (session_events session_id @ evs) = []"
    and "filter is_thought_end (session_events session_id @ evs) = []"
    and "filter is_content_delta (session_events session_id @ evs) = []"
proof -
  have a: "filter is_terminal evs = [] \<and> filter is_thought_end evs = []
           \<and> filter is_content_delta evs = []"
    using assms
  proof (induction evs)
    case Nil
    then show ?case by simp
  next
    case (Cons e evs)
    then show ?case by (cases e) simp_all
  qed
  have b: "filter is_terminal (session_events session_id) = []
           \<and> filter is_thought_end (session_events session_id) = []
           \<and> filter is_content_delta (session_events session_id) = []"
    by (simp add: session_events_def split: option.splits)
  show "filter is_terminal (session_events session_id @ evs) = []"
    and "filter is_thought_end (session_events session_id @ evs) = []"
    and "filter is_content_delta (session_events session_id @ evs) = []"
    using a b by simp_all
qed

lemma stream_filters:
  "filter is_terminal (fst (stream_chunks r st cs)) = []"
  using plain_filters [OF stream_no_terminal [of r st cs]] by simp

lemma closing_filters:
  "filter is_terminal (closing_events r st) = []"
  "filter is_content_delta (closing_events r st) = []"
  by (simp_all add: closing_events_def)

text \<open>
  Claim C3, as the code has it. When the final answer has been streamed (the model
  was built, the loop and the stream ended without an exception, the references were
  extracted) and appending the assistant message to the conversation store raises,
  the handler around the call catches the exception: the stream still ends with the
  \<open>message_complete\<close> event carrying the full answer, and holds no \<open>error\<close> event.
\<close>

theorem persistence_failure_not_fatal:
  assumes gcm: "get_chat_model_with_tools E model_name enable_tools w = Inr mdl"
    and lp: "tool_loop E L all_tools mdl max_iterations 0 (add_pdf_context pdf_chunks messages) w
               = (evs, calls, Inr messages1, w1)"
    and st: "astream E mdl messages1 w1 = ((chunks, None), w2)"
    and fr: "full = full_response
               (snd (stream_chunks (model_name = Some deepseek_reasoner) split_init chunks))"
    and rf: "references_of E full pdf_chunks = Inr references"
    and sid: "session_of session_id = Some sid"
    and ap: "fst (append_message E sid full references w2) = Some err"
  shows "\<exists>pre. events_of (generate_streaming_response_with_tools E L all_tools messages
             model_name pdf_chunks enable_tools max_iterations session_id w)
           = pre @ [MessageComplete full references]
         \<and> filter is_terminal pre = []"
proof -
  let ?r = "model_name = Some deepseek_reasoner"
  let ?sevs = "fst (stream_chunks ?r split_init chunks)"
  let ?st = "snd (stream_chunks ?r split_init chunks)"
  have tl: "list_all is_tool_event evs" using tool_loop_events [OF lp] by simp
  have fin: "fst (final_streaming E mdl model_name messages1 pdf_chunks session_id w1)
      = ?sevs @ closing_events ?r ?st @ [MessageComplete full references]"
    using final_stream_complete [OF st, of model_name pdf_chunks references session_id] rf fr
    by simp
  have ev: "events_of (generate_streaming_response_with_tools E L all_tools messages
             model_name pdf_chunks enable_tools max_iterations session_id w)
      = ((session_events session_id @ evs) @ ?sevs @ closing_events ?r ?st)
        @ [MessageComplete full references]"
    using generate_streams(1) [OF gcm lp, of session_id] fin by simp
  have "filter is_terminal ((session_events session_id @ evs) @ ?sevs @ closing_events ?r ?st) = []"
    using start_events_plain(1) [OF tl, of session_id] stream_filters [of ?r split_init chunks]
      closing_filters(1) [of ?r ?st]
    by (simp del: append_assoc)
  then show ?thesis using ev by blast
qed

theorem persistence_failure_not_fatal_witness:
  "session_of (Some (ascii ''s1'')) = Some (ascii ''s1'')
   \<and> fst (append_message (test_env [] [chunk_hi]) (ascii ''s1'') (ascii ''hi'') [] 2)
       = Some (ascii ''disk full'')
   \<and> (\<exists>pre. events_of (generate_streaming_response_with_tools (test_env [] [chunk_hi]) ascii_lib
           all_tools_registry msgs0 (Some deepseek_chat) [] True 5 (Some (ascii ''s1'')) 0)
         = pre @ [MessageComplete (ascii ''hi'') []]
       \<and> filter is_terminal pre = [])"
proof -
  have gcm: "get_chat_model_with_tools (test_env [] [chunk_hi]) (Some deepseek_chat) True 0
               = Inr chat_with_tools"
    by (simp add: run_eval)
  have lp: "tool_loop (test_env [] [chunk_hi]) ascii_lib all_tools_registry chat_with_tools 5 0
              (add_pdf_context [] msgs0) 0
            = ([], [Ainvoke chat_with_tools msgs0], Inr msgs0, 1)"
    by (simp add: run_eval tool_loop.simps)
  have st: "astream (test_env [] [chunk_hi]) chat_with_tools msgs0 1 = (([chunk_hi], None), 2)"
    by (simp add: test_env_def)
  have fr: "ascii ''hi'' = full_response
               (snd (stream_chunks (Some deepseek_chat = Some deepseek_reasoner) split_init [chunk_hi]))"
    by (simp add: run_eval)
  have rf: "references_of (test_env [] [chunk_hi]) (ascii ''hi'') [] = Inr []"
    by (simp add: references_of_def)
  have sid: "session_of (Some (ascii ''s1'')) = Some (ascii ''s1'')"
    by (simp add: session_of_def ascii_def)
  have ap: "fst (append_message (test_env [] [chunk_hi]) (ascii ''s1'') (ascii ''hi'') [] 2)
              = Some (ascii ''disk full'')"
    by (simp add: test_env_def)
  show ?thesis
    using persistence_failure_not_fatal [OF gcm lp st fr rf sid ap] sid ap by blast
qed

text \<open>
  The claim as written fails: in a run whose store raises on the append, the stream
  ends with \<open>message_complete\<close> and has no \<open>error\<close> event.
\<close>

theorem persistence_failure_counterexample:
  "fst (append_message (test_env [] [chunk_hi]) (ascii ''s1'') (ascii ''hi'') [] 2)
       = Some (ascii ''disk full'')
   \<and> generate_streaming_response_with_tools (test_env [] [chunk_hi]) ascii_lib
        all_tools_registry msgs0 (Some deepseek_chat) [] True 5 (Some (ascii ''s1'')) 0
     = ([SessionInit (ascii ''s1''), AnswerStart, ContentDelta (ascii ''hi''),
         MessageComplete (ascii ''hi'') []],
        [Ainvoke chat_with_tools msgs0, Astream chat_with_tools msgs0], 3)"
  by (simp add: run_simple) (simp add: test_env_def)

section \<open>Properties of the reasoning and answer splitter\<close>

lemma complete_is_last:
  assumes "filter is_terminal pre = []" and "MessageComplete full refs \<in> set (pre @ [t])"
  shows "t = MessageComplete full refs"
proof (rule ccontr)
  assume "t \<noteq> MessageComplete full refs"
  then have "MessageComplete full refs \<in> set pre" using assms(2) by auto
  moreover have "is_terminal (MessageComplete full refs)" by simp
  ultimately have "MessageComplete full refs \<in> set (filter is_terminal pre)" by simp
  then show False using assms(1) by simp
qed

lemma final_streaming_shape:
  assumes st: "astream E mdl messages1 w1 = ((chunks, exn), w2)"
  shows "\<exists>t. fst (final_streaming E mdl model_name messages1 pdf_chunks session_id w1)
        = fst (stream_chunks (model_name = Some deepseek_reasoner) split_init chunks)
          @ (if exn = None
             then closing_events (model_name = Some deepseek_reasoner)
                    (snd (stream_chunks (model_name = Some deepseek_reasoner) split_init chunks))
             else [])
          @ [t]
      \<and> is_terminal t
      \<and> (\<forall>full refs. t = MessageComplete full refs \<longrightarrow>
            exn = None \<and> references_of E full pdf_chunks = Inr refs \<and>
            full = full_response
              (snd (stream_chunks (model_name = Some deepseek_reasoner) split_init chunks)))"
proof (cases exn)
  case (Some err)
  have "is_terminal (Error err)" by simp
  then show ?thesis
    using final_stream_error [of E mdl messages1 w1 chunks err w2 model_name pdf_chunks session_id]
      st Some by auto
next
  case None
  let ?st = "snd (stream_chunks (model_name = Some deepseek_reasoner) split_init chunks)"
  show ?thesis
  proof (cases "references_of E (full_response ?st) pdf_chunks")
    case (Inl err)
    have "is_terminal (Error err)" by simp
    then show ?thesis
      using final_stream_ref_error [of E mdl messages1 w1 chunks w2 model_name pdf_chunks err session_id]
        st None Inl by auto
  next
    case (Inr references)
    have "is_terminal (MessageComplete (full_response ?st) references)" by simp
    then show ?thesis
      using final_stream_complete [of E mdl messages1 w1 chunks w2 model_name pdf_chunks references session_id]
        st None Inr by auto
  qed
qed

lemma run_both:
  "generate_streaming_response_with_tools (test_env [] [chunk_both]) ascii_lib
     all_tools_registry msgs0 (Some deepseek_reasoner) [] False 5 None 0
   = ([ThoughtProcessStart, ThoughtProcessContent (ascii ''think''), ThoughtProcessEnd,
       MessageComplete [] []],
      [Ainvoke reasoner_model msgs0, Astream reasoner_model msgs0], 2)"
  by (simp add: run_eval tool_loop.simps reasoner_model_def)

lemma run_both_hi:
  "generate_streaming_response_with_tools (test_env [] [chunk_both, chunk_hi]) ascii_lib
     all_tools_registry msgs0 (Some deepseek_reasoner) [] False 5 None 0
   = ([ThoughtProcessStart, ThoughtProcessContent (ascii ''think''), ThoughtProcessEnd,
       AnswerStart, ContentDelta (ascii ''hi''), MessageComplete (ascii ''hi'') []],
      [Ainvoke reasoner_model msgs0, Astream reasoner_model msgs0], 2)"
  by (simp add: run_eval tool_loop.simps reasoner_model_def)

lemma run_think:
  "generate_streaming_response_with_tools (test_env [] [chunk_think]) ascii_lib
     all_tools_registry msgs0 (Some deepseek_reasoner) [] False 5 None 0
   = ([ThoughtProcessStart, ThoughtProcessContent (ascii ''think''), ThoughtProcessEnd,
       MessageComplete [] []],
      [Ainvoke reasoner_model msgs0, Astream reasoner_model msgs0], 2)"
  by (simp add: run_eval tool_loop.simps reasoner_model_def)

lemma reasoner_start:
  "get_chat_model_with_tools (test_env [] cs) (Some deepseek_reasoner) False 0 = Inr reasoner_model"
  "tool_loop (test_env [] cs) ascii_lib all_tools_registry reasoner_model 5 0
     (add_pdf_context [] msgs0) 0
   = ([], [Ainvoke reasoner_model msgs0], Inr msgs0, 1)"
  "astream (test_env [] cs) reasoner_model msgs0 1 = ((cs, None), 2)"
  by (simp_all add: get_chat_model_with_tools_def test_env_def add_pdf_context_def
      tool_loop.simps reasoner_model_def)

text \<open>
  Claim C4, as the code has it. For the reasoner model \<open>deepseek-reasoner\<close>, every
  unit delivered by the final stream whose answer payload is non-empty and whose
  reasoning payload is empty produces a \<open>content_delta\<close> event with exactly that
  payload, in order, and these are all the \<open>content_delta\<close> events; the full content of
  the \<open>message_complete\<close> event, when the run emits one, is the concatenation of these
  payloads. A unit with a non-empty reasoning payload goes to the reasoning channel
  only: its answer payload is dropped.
\<close>

theorem answer_units_delivered:
  assumes gcm: "get_chat_model_with_tools E model_name enable_tools w = Inr mdl"
    and lp: "tool_loop E L all_tools mdl max_iterations 0 (add_pdf_context pdf_chunks messages) w
               = (evs, calls, Inr messages1, w1)"
    and st: "astream E mdl messages1 w1 = ((chunks, exn), w2)"
    and rm: "model_name = Some deepseek_reasoner"
  shows "filter is_content_delta (events_of (generate_streaming_response_with_tools E L all_tools
             messages model_name pdf_chunks enable_tools max_iterations session_id w))
           = map (\<lambda>c. ContentDelta (chunk_content c))
               (filter (\<lambda>c. chunk_content c \<noteq> [] \<and> reasoning_content_of c = []) chunks)
         \<and> (\<forall>full refs.
               MessageComplete full refs \<in> set (events_of (generate_streaming_response_with_tools
                 E L all_tools messages model_name pdf_chunks enable_tools max_iterations session_id w))
               \<longrightarrow> full = concat (map chunk_content
                     (filter (\<lambda>c. chunk_content c \<noteq> [] \<and> reasoning_content_of c = []) chunks)))"
proof -
  let ?sevs = "fst (stream_chunks True split_init chunks)"
  let ?st = "snd (stream_chunks True split_init chunks)"
  let ?cl = "if exn = None then closing_events True ?st else []"
  let ?ans = "filter (\<lambda>c. chunk_content c \<noteq> [] \<and> reasoning_content_of c = []) chunks"
  have tl: "list_all is_tool_event evs" using tool_loop_events [OF lp] by simp
  have eq: "(model_name = Some deepseek_reasoner) = True" using rm by simp
  obtain t where fin: "fst (final_streaming E mdl model_name messages1 pdf_chunks session_id w1)
        = ?sevs @ ?cl @ [t]"
    and tterm: "is_terminal t"
    and comp: "\<forall>full refs. t = MessageComplete full refs \<longrightarrow>
            exn = None \<and> references_of E full pdf_chunks = Inr refs \<and> full = full_response ?st"
    using final_streaming_shape [OF st, of model_name pdf_chunks session_id] unfolding eq by blast
  have ev: "events_of (generate_streaming_response_with_tools E L all_tools messages
             model_name pdf_chunks enable_tools max_iterations session_id w)
      = ((session_events session_id @ evs) @ ?sevs @ ?cl) @ [t]"
    using generate_streams(1) [OF gcm lp, of session_id] fin by simp
  have nd: "\<not> is_content_delta t" using tterm by (cases t) simp_all
  have cl_d: "filter is_content_delta ?cl = []" by (simp add: closing_filters)
  have cl_t: "filter is_terminal ?cl = []" by (simp add: closing_filters)
  have deltas: "filter is_content_delta ?sevs = map (\<lambda>c. ContentDelta (chunk_content c)) ?ans"
    using stream_deltas [of True split_init chunks] by (simp add: answer_unit_reasoner comp_def)
  have full: "full_response ?st = concat (map chunk_content ?ans)"
    using stream_full_response [of True split_init chunks]
    by (simp add: answer_unit_reasoner split_init_def)
  have a: "filter is_content_delta (events_of (generate_streaming_response_with_tools E L all_tools
             messages model_name pdf_chunks enable_tools max_iterations session_id w))
           = map (\<lambda>c. ContentDelta (chunk_content c)) ?ans"
    using ev start_events_plain(3) [OF tl, of session_id] cl_d deltas nd
    by (simp del: append_assoc)
  have pre_t: "filter is_terminal ((session_events session_id @ evs) @ ?sevs @ ?cl) = []"
    using start_events_plain(1) [OF tl, of session_id] stream_filters [of True split_init chunks] cl_t
    by (simp del: append_assoc)
  have b: "\<forall>full refs.
               MessageComplete full refs \<in> set (events_of (generate_streaming_response_with_tools
                 E L all_tools messages model_name pdf_chunks enable_tools max_iterations session_id w))
               \<longrightarrow> full = concat (map chunk_content ?ans)"
  proof (intro allI impI)
    fix full refs
    assume "MessageComplete full refs \<in> set (events_of (generate_streaming_response_with_tools
                 E L all_tools messages model_name pdf_chunks enable_tools max_iterations session_id w))"
    then have "MessageComplete full refs
        \<in> set (((session_events session_id @ evs) @ ?sevs @ ?cl) @ [t])"
      using ev by simp
    then have "t = MessageComplete full refs" using complete_is_last [OF pre_t] by blast
    then show "full = concat (map chunk_content ?ans)" using comp full by simp
  qed
  from a b show ?thesis by (rule conjI)
qed

theorem answer_units_delivered_witness:
  "filter is_content_delta (events_of (generate_streaming_response_with_tools
       (test_env [] [chunk_both, chunk_hi]) ascii_lib all_tools_registry msgs0
       (Some deepseek_reasoner) [] False 5 None 0))
     = [ContentDelta (ascii ''hi'')]
   \<and> MessageComplete (ascii ''hi'') [] \<in> set (events_of (generate_streaming_response_with_tools
       (test_env [] [chunk_both, chunk_hi]) ascii_lib all_tools_registry msgs0
       (Some deepseek_reasoner) [] False 5 None 0))
   \<and> ascii ''hi'' = concat (map chunk_content
        (filter (\<lambda>c. chunk_content c \<noteq> [] \<and> reasoning_content_of c = []) [chunk_both, chunk_hi]))"
proof -
  note w = answer_units_delivered [OF reasoner_start(1) reasoner_start(2) reasoner_start(3) refl,
      of "[chunk_both, chunk_hi]" None]
  have sel: "filter (\<lambda>c. chunk_content c \<noteq> [] \<and> reasoning_content_of c = []) [chunk_both, chunk_hi]
      = [chunk_hi]"
    by (simp add: chunk_both_def chunk_hi_def reasoning_content_of_def get_or_def ascii_def)
  have m: "MessageComplete (ascii ''hi'') [] \<in> set (events_of (generate_streaming_response_with_tools
       (test_env [] [chunk_both, chunk_hi]) ascii_lib all_tools_registry msgs0
       (Some deepseek_reasoner) [] False 5 None 0))"
    by (simp add: run_both_hi events_of_def)
  have hi: "chunk_content chunk_hi = ascii ''hi''" by (simp add: chunk_hi_def)
  from w have a: "filter is_content_delta (events_of (generate_streaming_response_with_tools
       (test_env [] [chunk_both, chunk_hi]) ascii_lib all_tools_registry msgs0
       (Some deepseek_reasoner) [] False 5 None 0))
     = [ContentDelta (ascii ''hi'')]"
    unfolding sel by (simp add: hi)
  from w m have b: "ascii ''hi'' = concat (map chunk_content
        (filter (\<lambda>c. chunk_content c \<noteq> [] \<and> reasoning_content_of c = []) [chunk_both, chunk_hi]))"
    by blast
  from a m b show ?thesis by blast
qed

text \<open>
  The claim as written fails: a unit that carries the reasoning payload \<open>think\<close> and
  the answer payload \<open>ans\<close> produces no \<open>content_delta\<close>, and the full content of
  \<open>message_complete\<close> is empty.
\<close>

theorem answer_with_reasoning_counterexample:
  "chunk_content chunk_both = ascii ''ans''
   \<and> reasoning_content_of chunk_both = ascii ''think''
   \<and> generate_streaming_response_with_tools (test_env [] [chunk_both]) ascii_lib
        all_tools_registry msgs0 (Some deepseek_reasoner) [] False 5 None 0
     = ([ThoughtProcessStart, ThoughtProcessContent (ascii ''think''), ThoughtProcessEnd,
         MessageComplete [] []],
        [Ainvoke reasoner_model msgs0, Astream reasoner_model msgs0], 2)"
  by (simp add: run_both) (simp add: chunk_both_def reasoning_content_of_def get_or_def)

text \<open>
  Claim C5. For the reasoner model, when the final stream delivers its units and ends,
  at least one unit carries a non-empty reasoning payload and no unit has a non-empty
  content, exactly one \<open>thought_process_end\<close> event is emitted, and it comes right
  before the terminating event: the \<open>message_complete\<close> event (with empty content),
  or the \<open>error\<close> event when extracting the references raises.
\<close>

theorem reasoning_closed_before_complete:
  assumes gcm: "get_chat_model_with_tools E model_name enable_tools w = Inr mdl"
    and lp: "tool_loop E L all_tools mdl max_iterations 0 (add_pdf_context pdf_chunks messages) w
               = (evs, calls, Inr messages1, w1)"
    and st: "astream E mdl messages1 w1 = ((chunks, None), w2)"
    and rm: "model_name = Some deepseek_reasoner"
    and some: "\<exists>c\<in>set chunks. reasoning_content_of c \<noteq> []"
    and none: "\<forall>c\<in>set chunks. chunk_content c = []"
  shows "\<exists>pre t. events_of (generate_streaming_response_with_tools E L all_tools messages
             model_name pdf_chunks enable_tools max_iterations session_id w)
           = pre @ [ThoughtProcessEnd, t]
         \<and> filter is_thought_end pre = [] \<and> filter is_terminal pre = []
         \<and> (case references_of E [] pdf_chunks of
               Inl err \<Rightarrow> t = Error err
             | Inr references \<Rightarrow> t = MessageComplete [] references)"
proof -
  let ?sevs = "fst (stream_chunks True split_init chunks)"
  let ?st = "snd (stream_chunks True split_init chunks)"
  have eq: "(model_name = Some deepseek_reasoner) = True" using rm by simp
  have tl: "list_all is_tool_event evs" using tool_loop_events [OF lp] by simp
  have ro: "filter is_thought_end ?sevs = []"
    "thought_process_ended ?st = thought_process_ended split_init"
    "thought_process_started ?st
       = (thought_process_started split_init \<or> (\<exists>c\<in>set chunks. reasoning_unit True c))"
    using stream_reasoning_only [OF none, of True split_init] by simp_all
  have "thought_process_started ?st \<and> \<not> thought_process_ended ?st"
    using ro(2) ro(3) some by (simp add: split_init_def reasoning_unit_reasoner)
  then have cl: "closing_events True ?st = [ThoughtProcessEnd]"
    by (simp add: closing_events_def)
  have "filter (answer_unit True) chunks = []"
    using none by (simp add: filter_empty_conv answer_unit_def)
  then have full: "full_response ?st = []"
    using stream_full_response [of True split_init chunks] by (simp add: split_init_def)
  let ?pre = "(session_events session_id @ evs) @ ?sevs"
  have p1: "filter is_thought_end ?pre = []"
    using start_events_plain(2) [OF tl, of session_id] ro(1) by (simp del: append_assoc)
  have p2: "filter is_terminal ?pre = []"
    using start_events_plain(1) [OF tl, of session_id] stream_filters [of True split_init chunks]
    by (simp del: append_assoc)
  show ?thesis
  proof (cases "references_of E [] pdf_chunks")
    case (Inl err)
    have "fst (final_streaming E mdl model_name messages1 pdf_chunks session_id w1)
        = ?sevs @ [ThoughtProcessEnd] @ [Error err]"
      using final_stream_ref_error [OF st, of model_name pdf_chunks err session_id] Inl full cl
      unfolding eq by simp
    then have e: "events_of (generate_streaming_response_with_tools E L all_tools messages
             model_name pdf_chunks enable_tools max_iterations session_id w)
           = ?pre @ [ThoughtProcessEnd, Error err]"
      using generate_streams(1) [OF gcm lp, of session_id] by simp
    show ?thesis
      by (rule exI [of _ ?pre], rule exI [of _ "Error err"]) (simp only: e p1 p2 Inl sum.case simp_thms)
  next
    case (Inr references)
    have "fst (final_streaming E mdl model_name messages1 pdf_chunks session_id w1)
        = ?sevs @ [ThoughtProcessEnd] @ [MessageComplete [] references]"
      using final_stream_complete [OF st, of model_name pdf_chunks references session_id] Inr full cl
      unfolding eq by simp
    then have e: "events_of (generate_streaming_response_with_tools E L all_tools messages
             model_name pdf_chunks enable_tools max_iterations session_id w)
           = ?pre @ [ThoughtProcessEnd, MessageComplete [] references]"
      using generate_streams(1) [OF gcm lp, of session_id] by simp
    show ?thesis
      by (rule exI [of _ ?pre], rule exI [of _ "MessageComplete [] references"])
        (simp only: e p1 p2 Inr sum.case simp_thms)
  qed
qed

theorem reasoning_closed_before_complete_witness:
  "(\<exists>c\<in>set [chunk_think]. reasoning_content_of c \<noteq> [])
   \<and> \<not> (\<exists>c\<in>set [chunk_think]. chunk_content c \<noteq> [])
   \<and> (\<exists>pre t. events_of (generate_streaming_response_with_tools (test_env [] [chunk_think])
           ascii_lib all_tools_registry msgs0 (Some deepseek_reasoner) [] False 5 None 0)
         = pre @ [ThoughtProcessEnd, t]
       \<and> filter is_thought_end pre = [] \<and> filter is_terminal pre = []
       \<and> t = MessageComplete [] [])"
proof -
  have some: "\<exists>c\<in>set [chunk_think]. reasoning_content_of c \<noteq> []"
    by (simp add: chunk_think_def reasoning_content_of_def get_or_def ascii_def)
  have none: "\<forall>c\<in>set [chunk_think]. chunk_content c = []"
    by (simp add: chunk_think_def)
  have rf: "references_of (test_env [] [chunk_think]) [] [] = Inr []"
    by (simp add: references_of_def)
  note w = reasoning_closed_before_complete [OF reasoner_start(1) reasoner_start(2)
      reasoner_start(3) refl some none, of None]
  from w rf have "\<exists>pre t. events_of (generate_streaming_response_with_tools (test_env [] [chunk_think])
           ascii_lib all_tools_registry msgs0 (Some deepseek_reasoner) [] False 5 None 0)
         = pre @ [ThoughtProcessEnd, t]
       \<and> filter is_thought_end pre = [] \<and> filter is_terminal pre = []
       \<and> t = MessageComplete [] []"
    by simp
  then show ?thesis using some none by simp
qed

end
